theory Spec2Isabelle
  imports Main "HOL-Library.Char_ord" "HOL-Library.List_Lexorder"
begin

section \<open>JSON documents\<close>

text \<open>
  A schema document is the value that Python's JSON loader produces. A Python \<open>dict\<close>
  keeps its keys unique and in insertion order, so it is an association list here; the
  first binding of a key is the one a lookup finds. Numbers are integers: no operation of
  \<open>traitlets.py\<close> looks at a number beyond its truth value. Strings are byte strings, and
  the byte-wise lexicographic order of \<open>HOL-Library.List_Lexorder\<close> over
  \<open>HOL-Library.Char_ord\<close> is Python's order on \<open>str\<close> for ASCII (and for UTF-8 encoded
  text in general).
\<close>

datatype json =
    JNull
  | JBool bool
  | JNum int
  | JStr string
  | JArr "json list"
  | JObj "(string \<times> json) list"

type_synonym dict = "(string \<times> json) list"

text \<open>Python's truth value of a JSON value (\<open>not ref\<close> in \<open>get_reference\<close>).\<close>

fun truthy :: "json \<Rightarrow> bool" where
  "truthy JNull = False"
| "truthy (JBool b) = b"
| "truthy (JNum i) = (i \<noteq> 0)"
| "truthy (JStr s) = (s \<noteq> [])"
| "truthy (JArr xs) = (xs \<noteq> [])"
| "truthy (JObj kvs) = (kvs \<noteq> [])"

text \<open>The name of the Python class of a JSON value, as error messages print it.\<close>

fun py_type_name :: "json \<Rightarrow> string" where
  "py_type_name JNull = ''NoneType''"
| "py_type_name (JBool b) = ''bool''"
| "py_type_name (JNum i) = ''int''"
| "py_type_name (JStr s) = ''str''"
| "py_type_name (JArr xs) = ''list''"
| "py_type_name (JObj kvs) = ''dict''"

section \<open>Errors\<close>

text \<open>
  Every \<open>raise\<close> of the source is a value. The \<open>ValueError\<close>s of \<open>traitlets.py\<close> are kept
  apart by their message, and carry what the message is formatted with.
\<close>

datatype error =
    EmptyReference
      \<comment> \<open>\<open>ValueError("empty reference")\<close>\<close>
  | UnrecognizedRefFormat string
      \<comment> \<open>\<open>ValueError("Unrecognized $ref format: '{0}'".format(ref))\<close>\<close>
  | RefNotPresent string
      \<comment> \<open>\<open>ValueError("$ref='{0}' not present in the schema".format(ref))\<close>\<close>
  | NoRecognizedTraitCode "string list"
      \<comment> \<open>\<open>ValueError("No recognized trait code for schema with keys {0}")\<close>, with the keys\<close>
  | AttributeError string string
      \<comment> \<open>\<open>AttributeError("'{0}' object has no attribute '{1}'")\<close>: class name, attribute\<close>
  | NotImplementedError "string list"
      \<comment> \<open>\<open>NotImplementedError("class name for schema with keys {0}")\<close>, with the keys\<close>
  | KeyError string
      \<comment> \<open>a missing key of a \<open>dict\<close>\<close>
  | TypeError
      \<comment> \<open>subscripting or iterating a value that does not support it\<close>
  | IndexError
      \<comment> \<open>an index outside a list\<close>
  | SchemaNotMapping
      \<comment> \<open>wrapping a value that is not a mapping as a schema object\<close>
  | ExtractorError string
      \<comment> \<open>whatever else a trait extractor raises\<close>

section \<open>The wrapped schema object\<close>

text \<open>
  Modelled from the spec: the class of \<open>schemaobj\<close> (the \<open>JSONSchema\<close> object that
  \<open>JSONSchemaTraitlets\<close> wraps) is not part of \<open>traitlets.py\<close>. The spec (section 3 and
  4.1) gives it a \<open>schema\<close> (the mapping rooted at the node), an optional \<open>name\<close>, a
  \<open>root\<close> (the object of the document root; the root is its own root) and a configured
  \<open>root_name\<close>; constructing a child keeps the constructing object's root and takes the
  subschema and the optional name. The root object and a child object are two
  constructors, so that the identity test \<open>root is self\<close> is the test for the constructor
  \<open>RootSchema\<close>. A schema is a mapping, so a value that is not a mapping cannot be
  wrapped: \<open>obj_initialize_child\<close> answers \<open>SchemaNotMapping\<close> for it.
\<close>

datatype jsonschema =
    RootSchema (root_doc: dict) (obj_root_name: string)
  | ChildSchema (root_doc: dict) (obj_root_name: string) (child_schema: dict)
      (child_name: "string option")

text \<open>
  Modelled from the spec: the attributes \<open>schema\<close> and \<open>name\<close> of the schema object
  (section 3). The root has no name: a name is "assigned when the node was reached via a
  named definition".
\<close>

fun obj_schema :: "jsonschema \<Rightarrow> dict" where
  "obj_schema (RootSchema d rn) = d"
| "obj_schema (ChildSchema d rn s nm) = s"

fun obj_name :: "jsonschema \<Rightarrow> string option" where
  "obj_name (RootSchema d rn) = None"
| "obj_name (ChildSchema d rn s nm) = nm"

text \<open>
  Modelled from the spec: the attribute \<open>root\<close> of the schema object, "the node wrapping
  the document root", which the root itself is.
\<close>

definition obj_root :: "jsonschema \<Rightarrow> jsonschema" where
  "obj_root so = RootSchema (root_doc so) (obj_root_name so)"

text \<open>
  Modelled from the spec: the method \<open>initialize_child\<close> of the schema object (section
  4.1): the child takes the subschema and the optional name, and its root is the root of
  the constructing object.
\<close>

definition obj_initialize_child :: "jsonschema \<Rightarrow> json \<Rightarrow> string option \<Rightarrow> error + jsonschema" where
  "obj_initialize_child so sch nm =
     (case sch of
        JObj m \<Rightarrow> Inr (ChildSchema (root_doc so) (obj_root_name so) m nm)
      | _ \<Rightarrow> Inl SchemaNotMapping)"

text \<open>
  Modelled from the spec: \<open>schemaobj.definitions\<close> is "the root's \<open>definitions\<close> keyword
  value" (section 4.4), the empty mapping when the keyword is absent.
\<close>

definition obj_definitions :: "jsonschema \<Rightarrow> json" where
  "obj_definitions so =
     (case map_of (root_doc so) ''definitions'' of Some v \<Rightarrow> v | None \<Rightarrow> JObj [])"

section \<open>The node wrapper \<open>JSONSchemaTraitlets\<close>\<close>

text \<open>
  The ordered list of trait extractor classes of the source, one constructor each
  (\<open>tx.Not\<close> is \<open>Not_extractor\<close>, apart from the negation of HOL).
\<close>

datatype extractor =
    AnyOfObject | OneOfObject | AllOfObject
  | RefObject | RefTrait
  | Not_extractor | AnyOf | AllOf | OneOf
  | NamedEnum | Enum
  | SimpleType | CompoundType
  | Array | EmptySchema | Object

definition trait_extractors :: "extractor list" where
  "trait_extractors =
     [AnyOfObject, OneOfObject, AllOfObject,
      RefObject, RefTrait,
      Not_extractor, AnyOf, AllOf, OneOf,
      NamedEnum, Enum,
      SimpleType, CompoundType,
      Array, EmptySchema, Object]"

text \<open>Plugins are opaque objects; nothing modelled here calls them.\<close>

typedecl plugin

text \<open>
  The instance attributes set by \<open>__init__\<close>. The attribute \<open>schema\<close> is a copy of the
  reference \<open>schemaobj.schema\<close> and is never assigned again, so it is a function of
  \<open>schemaobj\<close>. \<open>_trait_extractor\<close> is the memo of the dispatch; an extractor instance is
  bound to the node it was built for, so the memo holds its class.
\<close>

record node =
  schemaobj :: jsonschema
  plugins :: "plugin list"
  cached_trait_extractor :: "extractor option"

definition JSONSchemaTraitlets :: "jsonschema \<Rightarrow> node" where
  "JSONSchemaTraitlets so =
     \<lparr>schemaobj = so, plugins = [], cached_trait_extractor = None\<rparr>"

definition schema :: "node \<Rightarrow> dict" where
  "schema n = obj_schema (schemaobj n)"

definition name :: "node \<Rightarrow> string option" where
  "name n = obj_name (schemaobj n)"

definition root_name :: "node \<Rightarrow> string" where
  "root_name n = obj_root_name (schemaobj n)"

definition root :: "node \<Rightarrow> jsonschema" where
  "root n = obj_root (schemaobj n)"

definition is_root :: "node \<Rightarrow> bool" where
  "is_root n = (obj_root (schemaobj n) = schemaobj n)"

definition initialize_child :: "node \<Rightarrow> json \<Rightarrow> string option \<Rightarrow> error + node" where
  "initialize_child n sch nm =
     (case obj_initialize_child (schemaobj n) sch nm of
        Inl e \<Rightarrow> Inl e
      | Inr so \<Rightarrow> Inr (JSONSchemaTraitlets so))"

text \<open>\<open>__getitem__\<close>, \<open>__contains__\<close> and \<open>get\<close> work on the raw mapping.\<close>

definition getitem :: "node \<Rightarrow> string \<Rightarrow> error + json" where
  "getitem n key = (case map_of (schema n) key of None \<Rightarrow> Inl (KeyError key) | Some v \<Rightarrow> Inr v)"

definition contains :: "node \<Rightarrow> string \<Rightarrow> bool" where
  "contains n key = (key \<in> set (map fst (schema n)))"

text \<open>The table \<open>attr_defaults\<close> and \<open>__getattr__\<close>, the fallback of attribute access.\<close>

definition attr_defaults :: "(string \<times> json) list" where
  "attr_defaults =
     [(''title'', JStr ''''),
      (''description'', JStr ''''),
      (''properties'', JObj []),
      (''definitions'', JObj []),
      (''default'', JNull),
      (''examples'', JObj []),
      (''type'', JStr ''object''),
      (''required'', JArr []),
      (''additionalProperties'', JBool True)]"

definition getattr :: "node \<Rightarrow> string \<Rightarrow> error + json" where
  "getattr n attr =
     (case map_of attr_defaults attr of
        Some d \<Rightarrow> Inr (case map_of (schema n) attr of Some v \<Rightarrow> v | None \<Rightarrow> d)
      | None \<Rightarrow> Inl (AttributeError ''JSONSchemaTraitlets'' attr))"

text \<open>
  \<open>__getattr__\<close> is also what Python calls when the getter of a \<open>@property\<close> raises an
  \<open>AttributeError\<close>: the lookup falls back to \<open>__getattr__\<close> with the name of the
  property. No property of the class is named like a key of \<open>attr_defaults\<close>, so the
  fallback raises the \<open>AttributeError\<close> of the class for that name, whatever the
  \<open>AttributeError\<close> of the getter said. Every other exception of a getter passes
  unchanged. \<open>property_fallback\<close> is applied to the result of each getter below.
\<close>

definition property_fallback :: "string \<Rightarrow> error + 'a \<Rightarrow> error + 'a" where
  "property_fallback attr r =
     (case r of
        Inl (AttributeError cls a) \<Rightarrow> Inl (AttributeError ''JSONSchemaTraitlets'' attr)
      | _ \<Rightarrow> r)"

definition is_reference :: "node \<Rightarrow> bool" where
  "is_reference n = (''$ref'' \<in> set (map fst (schema n)))"

section \<open>Reference resolution\<close>

text \<open>
  \<open>str.split('/')\<close>: one segment more than there are separators, empty segments kept.
  The scan keeps the current segment reversed in \<open>acc\<close>.
\<close>

fun split_acc :: "char \<Rightarrow> string \<Rightarrow> string \<Rightarrow> string list" where
  "split_acc c acc [] = [rev acc]"
| "split_acc c acc (x # xs) =
     (if x = c then rev acc # split_acc c [] xs else split_acc c (x # acc) xs)"

definition split :: "string \<Rightarrow> char \<Rightarrow> string list" where
  "split s c = split_acc c [] s"

text \<open>
  The loop \<open>for key in path[1:]: schema = schema[key]\<close>. A missing key of a \<open>dict\<close> is a
  \<open>KeyError\<close>; a list, a string, a number, a Boolean or \<open>None\<close> subscripted with a string
  is a \<open>TypeError\<close>.
\<close>

fun walk :: "json \<Rightarrow> string list \<Rightarrow> error + json" where
  "walk j [] = Inr j"
| "walk j (key # keys) =
     (case j of
        JObj kvs \<Rightarrow> (case map_of kvs key of None \<Rightarrow> Inl (KeyError key) | Some v \<Rightarrow> walk v keys)
      | _ \<Rightarrow> Inl TypeError)"

text \<open>
  \<open>get_reference\<close>. The test \<open>len(path) == 1 or path[1] == ''\<close> is the case split on
  the segments after the first. A value without \<open>split\<close> (a non-empty list or mapping,
  a non-zero number, \<open>True\<close>) is an \<open>AttributeError\<close>. Only the \<open>KeyError\<close> of the walk is caught
  and turned into the \<open>ValueError\<close> "not present in the schema".
\<close>

definition get_reference :: "node \<Rightarrow> json \<Rightarrow> error + node" where
  "get_reference n ref =
     (if \<not> truthy ref then Inl EmptyReference
      else case ref of
        JStr s \<Rightarrow>
          (case split s CHR ''/'' of
             [] \<Rightarrow> Inl IndexError
           | p0 # rest \<Rightarrow>
               let nm = last (p0 # rest) in
               if p0 \<noteq> ''#'' then Inl (UnrecognizedRefFormat s)
               else (case rest of
                  [] \<Rightarrow> Inr (JSONSchemaTraitlets (root n))
                | p1 # _ \<Rightarrow>
                    if p1 = '''' then Inr (JSONSchemaTraitlets (root n))
                    else (case walk (JObj (obj_schema (root n))) rest of
                            Inl (KeyError k) \<Rightarrow> Inl (RefNotPresent s)
                          | Inl e \<Rightarrow> Inl e
                          | Inr sch \<Rightarrow> initialize_child n sch (Some nm))))
      | v \<Rightarrow> Inl (AttributeError (py_type_name v) ''split''))"

definition wrapped_ref :: "node \<Rightarrow> error + node" where
  "wrapped_ref n =
     (case map_of (schema n) ''$ref'' of
        None \<Rightarrow> Inl (KeyError ''$ref'')
      | Some ref \<Rightarrow> get_reference n ref)"

section \<open>Classification: \<open>is_trait\<close> and \<open>is_object\<close>\<close>

text \<open>
  Iterating a JSON value as \<open>for spec in self['anyOf']\<close> does: a list gives its
  elements, a mapping its keys, a string its characters; anything else is a \<open>TypeError\<close>.
\<close>

fun py_iter :: "json \<Rightarrow> error + json list" where
  "py_iter (JArr xs) = Inr xs"
| "py_iter (JObj kvs) = Inr (map (\<lambda>kv. JStr (fst kv)) kvs)"
| "py_iter (JStr s) = Inr (map (\<lambda>c. JStr [c]) s)"
| "py_iter _ = Inl TypeError"

text \<open>
  \<open>any\<close> and \<open>all\<close> over a generator consume it from the left and stop at the first
  deciding element; an element that raises, or whose computation does not return
  (\<open>None\<close>), ends the whole call the same way. Elements after the stop are not computed,
  which in a total logic is the same as not looking at them.
\<close>

fun py_any :: "(error + bool) option list \<Rightarrow> (error + bool) option" where
  "py_any [] = Some (Inr False)"
| "py_any (None # rs) = None"
| "py_any (Some (Inl e) # rs) = Some (Inl e)"
| "py_any (Some (Inr b) # rs) = (if b then Some (Inr True) else py_any rs)"

fun py_all :: "(error + bool) option list \<Rightarrow> (error + bool) option" where
  "py_all [] = Some (Inr True)"
| "py_all (None # rs) = None"
| "py_all (Some (Inl e) # rs) = Some (Inl e)"
| "py_all (Some (Inr b) # rs) = (if b then py_all rs else Some (Inr False))"

text \<open>
  The generator \<open>(self.initialize_child(spec).P for spec in self[key])\<close> for a predicate
  \<open>P\<close>: the subscript and the iterator are taken first, then each element is wrapped and
  classified.
\<close>

definition branches :: "node \<Rightarrow> string \<Rightarrow> error + json list" where
  "branches n key =
     (case getitem n key of Inl e \<Rightarrow> Inl e | Inr v \<Rightarrow> py_iter v)"

definition classify :: "(node \<Rightarrow> (error + bool) option) \<Rightarrow> node \<Rightarrow> json \<Rightarrow> (error + bool) option" where
  "classify P n spec =
     (case initialize_child n spec None of Inl e \<Rightarrow> Some (Inl e) | Inr c \<Rightarrow> P c)"

definition any_branch :: "(node \<Rightarrow> (error + bool) option) \<Rightarrow> node \<Rightarrow> string \<Rightarrow> (error + bool) option" where
  "any_branch P n key =
     (case branches n key of Inl e \<Rightarrow> Some (Inl e) | Inr specs \<Rightarrow> py_any (map (classify P n) specs))"

definition all_branches :: "(node \<Rightarrow> (error + bool) option) \<Rightarrow> node \<Rightarrow> string \<Rightarrow> (error + bool) option" where
  "all_branches P n key =
     (case branches n key of Inl e \<Rightarrow> Some (Inl e) | Inr specs \<Rightarrow> py_all (map (classify P n) specs))"

text \<open>
  The getter functions of the two properties, as written under \<open>@property\<close>. The argument
  \<open>self_is_trait\<close> (\<open>self_is_object\<close>) stands for the property read on another node, which
  is how the source recurses: on the target of \<open>$ref\<close> and on each wrapped branch.
\<close>

definition is_trait_getter :: "(node \<Rightarrow> (error + bool) option) \<Rightarrow> node \<Rightarrow> (error + bool) option" where
  "is_trait_getter self_is_trait n =
     (if contains n ''properties'' then Some (Inr False)
      else (case getattr n ''type'' of
         Inl e \<Rightarrow> Some (Inl e)
       | Inr t \<Rightarrow>
           if t \<noteq> JStr ''object'' then Some (Inr True)
           else if contains n ''enum'' then Some (Inr True)
           else if contains n ''$ref'' then
             (case wrapped_ref n of Inl e \<Rightarrow> Some (Inl e) | Inr target \<Rightarrow> self_is_trait target)
           else if contains n ''anyOf'' then any_branch self_is_trait n ''anyOf''
           else if contains n ''allOf'' then any_branch self_is_trait n ''allOf''
           else if contains n ''oneOf'' then any_branch self_is_trait n ''oneOf''
           else Some (Inr False)))"

definition is_object_getter :: "(node \<Rightarrow> (error + bool) option) \<Rightarrow> node \<Rightarrow> (error + bool) option" where
  "is_object_getter self_is_object n =
     (if contains n ''properties'' then Some (Inr True)
      else if contains n ''$ref'' then
        (case wrapped_ref n of Inl e \<Rightarrow> Some (Inl e) | Inr target \<Rightarrow> self_is_object target)
      else if contains n ''anyOf'' then all_branches self_is_object n ''anyOf''
      else if contains n ''allOf'' then all_branches self_is_object n ''allOf''
      else if contains n ''oneOf'' then all_branches self_is_object n ''oneOf''
      else Some (Inr False))"

text \<open>
  Reading the property runs the getter and, when the getter raises an \<open>AttributeError\<close>
  (a \<open>$ref\<close> that is not a string has no \<open>split\<close>), falls back to \<open>__getattr__\<close>, which
  raises the \<open>AttributeError\<close> of the property's own name.
\<close>

definition is_trait_body :: "(node \<Rightarrow> (error + bool) option) \<Rightarrow> node \<Rightarrow> (error + bool) option" where
  "is_trait_body self_is_trait n =
     map_option (property_fallback ''is_trait'') (is_trait_getter self_is_trait n)"

definition is_object_body :: "(node \<Rightarrow> (error + bool) option) \<Rightarrow> node \<Rightarrow> (error + bool) option" where
  "is_object_body self_is_object n =
     map_option (property_fallback ''is_object'') (is_object_getter self_is_object n)"

text \<open>
  The two properties recurse through \<open>$ref\<close> into the root document, so they need not
  return (a schema \<open>{"$ref": "#"}\<close> refers to itself). The first argument bounds the depth
  of the recursion; \<open>None\<close> is a computation that did not return within it.
\<close>

fun is_trait :: "nat \<Rightarrow> node \<Rightarrow> (error + bool) option" where
  "is_trait 0 n = None"
| "is_trait (Suc k) n = is_trait_body (is_trait k) n"

fun is_object :: "nat \<Rightarrow> node \<Rightarrow> (error + bool) option" where
  "is_object 0 n = None"
| "is_object (Suc k) n = is_object_body (is_object k) n"

section \<open>Extractor dispatch\<close>

text \<open>
  The trait extractor classes live in the module \<open>trait_extractors\<close>, which is not part
  of \<open>traitlets.py\<close>; what a class answers for a node is a parameter: its applicability
  test \<open>check()\<close>, its \<open>trait_imports()\<close> and its \<open>import_statement()\<close>. Each may raise.
\<close>

record extractors =
  check :: "extractor \<Rightarrow> node \<Rightarrow> error + bool"
  tx_trait_imports :: "extractor \<Rightarrow> node \<Rightarrow> error + string list"
  tx_import_statement :: "extractor \<Rightarrow> node \<Rightarrow> error + string"

text \<open>
  The loop \<open>for TraitExtractor in self.trait_extractors: ... if trait_extractor.check()\<close>.
  It answers the first class whose test passes (\<open>None\<close> for the \<open>else\<close> branch of the
  loop) together with the classes whose test it has run, in order: the second component
  is the trace of the scan.
\<close>

fun first_match :: "(extractor \<Rightarrow> error + bool) \<Rightarrow> extractor list
    \<Rightarrow> (error + extractor option) \<times> extractor list" where
  "first_match chk [] = (Inr None, [])"
| "first_match chk (e # es) =
     (case chk e of
        Inl err \<Rightarrow> (Inl err, [e])
      | Inr b \<Rightarrow>
          if b then (Inr (Some e), [e])
          else (case first_match chk es of (r, tested) \<Rightarrow> (r, e # tested)))"

text \<open>
  The property \<open>trait_extractor\<close>: the result, the node after the call (the memo
  \<open>_trait_extractor\<close> is assigned on a match) and the trace of the scan, empty when the
  memo answered.
\<close>

definition trait_extractor :: "extractors \<Rightarrow> node \<Rightarrow> (error + extractor) \<times> node \<times> extractor list" where
  "trait_extractor tx n =
     (case cached_trait_extractor n of
        Some e \<Rightarrow> (Inr e, n, [])
      | None \<Rightarrow>
          (case first_match (\<lambda>e. check tx e n) trait_extractors of
             (Inl err, tested) \<Rightarrow> (property_fallback ''trait_extractor'' (Inl err), n, tested)
           | (Inr (Some e), tested) \<Rightarrow> (Inr e, n\<lparr>cached_trait_extractor := Some e\<rparr>, tested)
           | (Inr None, tested) \<Rightarrow> (Inl (NoRecognizedTraitCode (map fst (schema n))), n, tested)))"

text \<open>\<open>trait_imports\<close> scans again on every call and does not touch the memo.\<close>

definition trait_imports :: "extractors \<Rightarrow> node \<Rightarrow> error + string list" where
  "trait_imports tx n =
     property_fallback ''trait_imports''
       (case fst (first_match (\<lambda>e. check tx e n) trait_extractors) of
          Inl err \<Rightarrow> Inl err
        | Inr (Some e) \<Rightarrow> tx_trait_imports tx e n
        | Inr None \<Rightarrow> Inl (NoRecognizedTraitCode (map fst (schema n))))"

definition import_statement :: "extractors \<Rightarrow> node \<Rightarrow> (error + string) \<times> node" where
  "import_statement tx n =
     (case trait_extractor tx n of
        (Inl err, n', tested) \<Rightarrow> (property_fallback ''import_statement'' (Inl err), n')
      | (Inr e, n', tested) \<Rightarrow>
          (property_fallback ''import_statement'' (tx_import_statement tx e n'), n'))"

section \<open>Names, definitions and properties\<close>

text \<open>
  The helpers \<open>regularize_name\<close> and \<open>trait_name_map\<close> belong to the module \<open>utils\<close>, which
  is not part of \<open>traitlets.py\<close>; they are parameters.
\<close>

record utils =
  regularize_name :: "string \<Rightarrow> string"
  trait_name_map :: "string list \<Rightarrow> (string \<times> string) list"

text \<open>
  \<open>classname\<close> follows \<open>$ref\<close> like the classification does, so it has the same bound on
  the depth. \<open>if self.name\<close> fails for an absent name and for the empty one. It is a
  property, with the fallback of properties.
\<close>

fun classname :: "utils \<Rightarrow> nat \<Rightarrow> node \<Rightarrow> (error + string) option" where
  "classname ut 0 n = None"
| "classname ut (Suc k) n =
     map_option (property_fallback ''classname'')
       (if name n \<noteq> None \<and> name n \<noteq> Some '''' then
          Some (Inr (regularize_name ut (the (name n))))
        else if is_root n then Some (Inr (root_name n))
        else if is_reference n then
          (case wrapped_ref n of Inl e \<Rightarrow> Some (Inl e) | Inr target \<Rightarrow> classname ut k target)
        else Some (Inl (NotImplementedError (map fst (schema n)))))"

text \<open>
  \<open>str.lower\<close> folds the case of every cased character of Unicode. Its table is not
  modelled: the function is the argument \<open>str_lower\<close> of \<open>wrapped_definitions\<close>, and what
  is proved of \<open>wrapped_definitions\<close> holds for every such function. On ASCII text
  \<open>str.lower\<close> changes the letters \<open>A\<close> to \<open>Z\<close> only, which is \<open>ascii_lower\<close>; the example
  documents, whose names are ASCII, are run with it.
\<close>

definition lower_char :: "char \<Rightarrow> char" where
  "lower_char c =
     (if CHR ''A'' \<le> c \<and> c \<le> CHR ''Z'' then char_of (of_char c + (32 :: nat)) else c)"

definition ascii_lower :: "string \<Rightarrow> string" where
  "ascii_lower s = map lower_char s"

text \<open>
  Assigning a key of an (ordered) \<open>dict\<close>: a key already present keeps its place and takes
  the new value, a new key goes to the end. \<open>OrderedDict(pairs)\<close> assigns the pairs of a
  generator from the left; an element that raises ends the construction.
\<close>

fun od_set :: "'k \<Rightarrow> 'v \<Rightarrow> ('k \<times> 'v) list \<Rightarrow> ('k \<times> 'v) list" where
  "od_set k v [] = [(k, v)]"
| "od_set k v (kv # kvs) = (if fst kv = k then (fst kv, v) # kvs else kv # od_set k v kvs)"

fun od_build :: "('k \<times> 'v) list \<Rightarrow> ('k \<times> (error + 'v)) list \<Rightarrow> error + ('k \<times> 'v) list" where
  "od_build acc [] = Inr acc"
| "od_build acc ((k, r) # rest) =
     (case r of Inl e \<Rightarrow> Inl e | Inr v \<Rightarrow> od_build (od_set k v acc) rest)"

definition OrderedDict :: "('k \<times> (error + 'v)) list \<Rightarrow> error + ('k \<times> 'v) list" where
  "OrderedDict pairs = od_build [] pairs"

text \<open>
  \<open>all_definitions\<close> and \<open>wrapped_definitions\<close>. The keys of a \<open>dict\<close> are unique, so
  \<open>sorted\<close> on its items orders them by key; a value without \<open>items\<close> is an
  \<open>AttributeError\<close>, which the property \<open>all_definitions\<close> turns into the one of its own
  name. \<open>wrapped_definitions\<close> is a method: what it raises passes unchanged.
\<close>

definition all_definitions :: "node \<Rightarrow> error + (string \<times> json) list" where
  "all_definitions n =
     property_fallback ''all_definitions''
       (case obj_definitions (schemaobj n) of
          JObj defs \<Rightarrow> Inr (sort_key fst defs)
        | v \<Rightarrow> Inl (AttributeError (py_type_name v) ''items''))"

definition wrapped_definitions :: "(string \<Rightarrow> string) \<Rightarrow> node \<Rightarrow> error + (string \<times> node) list" where
  "wrapped_definitions str_lower n =
     (case all_definitions n of
        Inl e \<Rightarrow> Inl e
      | Inr defs \<Rightarrow>
          OrderedDict (map (\<lambda>(nm, sch). (str_lower nm, initialize_child n sch (Some nm)))
                           (sort_key fst defs)))"

text \<open>
  \<open>trait_map\<close> and \<open>wrapped_properties\<close>. \<open>properties\<close> is the value of
  \<open>self.properties\<close> used as a \<open>dict\<close>; \<open>trait_map\<close> is a property, \<open>wrapped_properties\<close>
  a method. \<open>reverse_map\<close> is the \<open>dict\<close> comprehension
  \<open>{v: k for k, v in trait_map.items()}\<close>.
\<close>

definition properties :: "node \<Rightarrow> error + (string \<times> json) list" where
  "properties n =
     (case getattr n ''properties'' of
        Inl e \<Rightarrow> Inl e
      | Inr (JObj props) \<Rightarrow> Inr props
      | Inr v \<Rightarrow> Inl (AttributeError (py_type_name v) ''keys''))"

definition trait_map :: "utils \<Rightarrow> node \<Rightarrow> error + (string \<times> string) list" where
  "trait_map ut n =
     property_fallback ''trait_map''
       (case properties n of
          Inl e \<Rightarrow> Inl e
        | Inr props \<Rightarrow> Inr (trait_name_map ut (sort (map fst props))))"

definition wrapped_properties :: "utils \<Rightarrow> node \<Rightarrow> error + (string \<times> node) list" where
  "wrapped_properties ut n =
     (case trait_map ut n of
        Inl e \<Rightarrow> Inl e
      | Inr tm \<Rightarrow>
          let reverse_map = foldl (\<lambda>d (k, v). od_set v k d) [] tm in
          (case properties n of
             Inl e \<Rightarrow> Inl e
           | Inr props \<Rightarrow>
               OrderedDict
                 (map (\<lambda>(nm, val).
                         (case map_of reverse_map nm of Some k \<Rightarrow> k | None \<Rightarrow> nm,
                          initialize_child n val None))
                      (sort_key fst props))))"

section \<open>Imports of an object definition\<close>

definition basic_imports :: "string list" where
  "basic_imports = [''import traitlets as T'', ''from . import jstraitlets as jst'']"

text \<open>\<open>imports.extend(trait.trait_imports)\<close> for each node of a list, in order.\<close>

fun extend_all :: "(node \<Rightarrow> error + string list) \<Rightarrow> node list \<Rightarrow> error + string list" where
  "extend_all f [] = Inr []"
| "extend_all f (t # ts) =
     (case f t of
        Inl e \<Rightarrow> Inl e
      | Inr xs \<Rightarrow> (case extend_all f ts of Inl e \<Rightarrow> Inl e | Inr ys \<Rightarrow> Inr (xs @ ys)))"

text \<open>
  What each of the three steps of the property \<open>object_imports\<close> adds to the list
  \<open>imports\<close>:
  the trait imports of \<open>additionalProperties\<close> when it is a \<open>dict\<close>, the import statement of
  the reference target when the node is a reference (the target node is a temporary, its
  memo is dropped), and the trait imports of the wrapped properties.
\<close>

definition additional_imports :: "extractors \<Rightarrow> node \<Rightarrow> error + string list" where
  "additional_imports tx n =
     (case getattr n ''additionalProperties'' of
        Inl e \<Rightarrow> Inl e
      | Inr (JObj m) \<Rightarrow>
          (case initialize_child n (JObj m) None of
             Inl e \<Rightarrow> Inl e
           | Inr default_node \<Rightarrow> trait_imports tx default_node)
      | Inr _ \<Rightarrow> Inr [])"

definition reference_imports :: "extractors \<Rightarrow> node \<Rightarrow> error + string list" where
  "reference_imports tx n =
     (if is_reference n then
        (case wrapped_ref n of
           Inl e \<Rightarrow> Inl e
         | Inr target \<Rightarrow>
             (case fst (import_statement tx target) of Inl e \<Rightarrow> Inl e | Inr stmt \<Rightarrow> Inr [stmt]))
      else Inr [])"

definition property_imports :: "extractors \<Rightarrow> utils \<Rightarrow> node \<Rightarrow> error + string list" where
  "property_imports tx ut n =
     (case wrapped_properties ut n of
        Inl e \<Rightarrow> Inl e
      | Inr props \<Rightarrow> extend_all (trait_imports tx) (map snd props))"

text \<open>
  \<open>sorted(set(imports), reverse=True)\<close>: the elements of a set are distinct, so the
  descending sort is the ascending one reversed.
\<close>

definition object_imports :: "extractors \<Rightarrow> utils \<Rightarrow> node \<Rightarrow> error + string list" where
  "object_imports tx ut n =
     property_fallback ''object_imports''
       (case additional_imports tx n of
          Inl e \<Rightarrow> Inl e
        | Inr a \<Rightarrow>
            (case reference_imports tx n of
               Inl e \<Rightarrow> Inl e
             | Inr r \<Rightarrow>
                 (case property_imports tx ut n of
                    Inl e \<Rightarrow> Inl e
                  | Inr p \<Rightarrow> Inr (rev (sort (remdups (basic_imports @ a @ r @ p)))))))"

section \<open>Notions used to state the properties\<close>

text \<open>
  The union keyword that the classification reads: \<open>anyOf\<close> before \<open>allOf\<close> before
  \<open>oneOf\<close>.
\<close>

definition union_key :: "node \<Rightarrow> string option" where
  "union_key n =
     (if contains n ''anyOf'' then Some ''anyOf''
      else if contains n ''allOf'' then Some ''allOf''
      else if contains n ''oneOf'' then Some ''oneOf''
      else None)"

text \<open>The child node that wraps a mapping under a name, with the root of \<open>n\<close>.\<close>

definition child_of :: "node \<Rightarrow> dict \<Rightarrow> string option \<Rightarrow> node" where
  "child_of n m nm =
     JSONSchemaTraitlets (ChildSchema (root_doc (schemaobj n)) (obj_root_name (schemaobj n)) m nm)"

text \<open>
  A mapping is mixed when it has no \<open>properties\<close>, declares a type other than
  \<open>"object"\<close> or an \<open>enum\<close>, and also has \<open>$ref\<close> or a union keyword. A JSON value is
  unmixed when no mapping inside it is mixed.
\<close>

definition mixed :: "dict \<Rightarrow> bool" where
  "mixed m \<longleftrightarrow>
     ''properties'' \<notin> set (map fst m) \<and>
     ((case map_of m ''type'' of Some t \<Rightarrow> t \<noteq> JStr ''object'' | None \<Rightarrow> False)
        \<or> ''enum'' \<in> set (map fst m)) \<and>
     (''$ref'' \<in> set (map fst m) \<or> ''anyOf'' \<in> set (map fst m)
        \<or> ''allOf'' \<in> set (map fst m) \<or> ''oneOf'' \<in> set (map fst m))"

fun unmixed :: "json \<Rightarrow> bool" where
  "unmixed (JObj kvs) = (\<not> mixed kvs \<and> (\<forall>kv \<in> set kvs. unmixed (snd kv)))"
| "unmixed (JArr xs) = (\<forall>x \<in> set xs. unmixed x)"
| "unmixed _ = True"

section \<open>Example documents\<close>

text \<open>
  The document of the spec's scenario: one definition \<open>Color\<close>, an enumeration, and one
  property \<open>color\<close> that refers to it.
\<close>

definition color_doc :: dict where
  "color_doc =
     [(''definitions'', JObj [(''Color'', JObj [(''enum'', JArr [JStr ''red'', JStr ''green''])])]),
      (''properties'', JObj [(''color'', JObj [(''$ref'', JStr ''#/definitions/Color'')])]),
      (''type'', JStr ''object'')]"

definition color_root :: node where
  "color_root = JSONSchemaTraitlets (RootSchema color_doc ''Root'')"

text \<open>
  A document that declares the type \<open>"string"\<close> beside a union whose only branch has
  \<open>properties\<close>.
\<close>

definition string_union_doc :: dict where
  "string_union_doc =
     [(''type'', JStr ''string''),
      (''anyOf'', JArr [JObj [(''properties'', JObj [])]])]"

definition string_union_root :: node where
  "string_union_root = JSONSchemaTraitlets (RootSchema string_union_doc ''Root'')"

text \<open>
  A small rule set and name helpers to run the dispatch on: an enumeration is recognised
  by \<open>Enum\<close>, a reference by \<open>RefTrait\<close>, a mapping with \<open>properties\<close> by \<open>Object\<close>, and
  no other class applies; names are left as they are.
\<close>

definition sample_tx :: extractors where
  "sample_tx =
     \<lparr>check = (\<lambda>e n. Inr (case e of
                  Enum \<Rightarrow> contains n ''enum''
                | RefTrait \<Rightarrow> contains n ''$ref''
                | Object \<Rightarrow> contains n ''properties''
                | _ \<Rightarrow> False)),
      tx_trait_imports = (\<lambda>e n.
         if e = RefTrait then Inr [''import traitlets as T'', ''from .color import Color'']
         else Inr []),
      tx_import_statement = (\<lambda>e n. Inr ''from .schema import Root'')\<rparr>"

definition sample_utils :: utils where
  "sample_utils = \<lparr>regularize_name = (\<lambda>s. s), trait_name_map = (\<lambda>names. [])\<rparr>"

text \<open>
  Definitions that are all mappings are given as pairs of a name and a mapping;
  \<open>as_schema\<close> is the item of the \<open>definitions\<close> value, \<open>wrap_definition\<close> the entry that
  \<open>wrapped_definitions\<close> builds for it. \<open>od_assign_all\<close> assigns pairs to a \<open>dict\<close> from the
  left.
\<close>

definition as_schema :: "string \<times> dict \<Rightarrow> string \<times> json" where
  "as_schema d = (fst d, JObj (snd d))"

definition wrap_definition :: "(string \<Rightarrow> string) \<Rightarrow> node \<Rightarrow> string \<times> dict \<Rightarrow> string \<times> node" where
  "wrap_definition str_lower n d = (str_lower (fst d), child_of n (snd d) (Some (fst d)))"

definition od_assign_all :: "('k \<times> 'v) list \<Rightarrow> ('k \<times> 'v) list \<Rightarrow> ('k \<times> 'v) list" where
  "od_assign_all acc ps = foldl (\<lambda>d p. od_set (fst p) (snd p) d) acc ps"

text \<open>Documents whose definition names collide when lower-cased, or are empty.\<close>

definition foo_root :: node where
  "foo_root = JSONSchemaTraitlets (RootSchema
     [(''definitions'', JObj [(''foo'', JObj [(''type'', JStr ''number'')]),
                              (''Foo'', JObj [(''type'', JStr ''string'')])])] ''Root'')"

definition case_root :: node where
  "case_root = JSONSchemaTraitlets (RootSchema
     [(''definitions'', JObj [(''a'', JObj []), (''b'', JObj []), (''B'', JObj [])])] ''Root'')"

definition unnamed_root :: node where
  "unnamed_root = JSONSchemaTraitlets (RootSchema
     [(''definitions'', JObj [('''', JObj [])])] ''Root'')"

section \<open>Lazy quantifiers and the depth bound\<close>


lemma py_all_classified:
  "\<forall>r\<in>set rs. \<exists>b. r = Some (Inr b) \<Longrightarrow> py_all rs = Some (Inr (\<forall>r\<in>set rs. r = Some (Inr True)))"
  by (induction rs rule: py_all.induct) auto

lemma py_any_True: "py_any rs = Some (Inr True) \<Longrightarrow> Some (Inr True) \<in> set rs"
  by (induction rs rule: py_any.induct) (auto split: if_splits)

lemma py_all_True: "py_all rs = Some (Inr True) \<Longrightarrow> r \<in> set rs \<Longrightarrow> r = Some (Inr True)"
  by (induction rs rule: py_all.induct) (auto split: if_splits)


lemma py_all_first:
  "\<forall>p\<in>set pre. f p = Some (Inr True) \<Longrightarrow> f s \<noteq> Some (Inr True) \<Longrightarrow>
   py_all (map f (pre @ s # post)) = f s"
proof (induction pre)
  case Nil
  then show ?case
  proof (cases "f s")
    case None
    then show ?thesis by simp
  next
    case (Some v)
    with Nil.prems(2) show ?thesis by (cases v) auto
  qed
next
  case (Cons p pre)
  then show ?case by simp
qed

text \<open>
  The names of the properties that are modelled are no keys of \<open>attr_defaults\<close>: for each
  of them \<open>__getattr__\<close> raises, which is what \<open>property_fallback\<close> answers.
\<close>

lemma property_names_raise:
  "getattr n ''all_definitions'' = Inl (AttributeError ''JSONSchemaTraitlets'' ''all_definitions'')"
  "getattr n ''trait_extractor'' = Inl (AttributeError ''JSONSchemaTraitlets'' ''trait_extractor'')"
  "getattr n ''is_trait'' = Inl (AttributeError ''JSONSchemaTraitlets'' ''is_trait'')"
  "getattr n ''is_object'' = Inl (AttributeError ''JSONSchemaTraitlets'' ''is_object'')"
  "getattr n ''classname'' = Inl (AttributeError ''JSONSchemaTraitlets'' ''classname'')"
  "getattr n ''trait_map'' = Inl (AttributeError ''JSONSchemaTraitlets'' ''trait_map'')"
  "getattr n ''import_statement'' = Inl (AttributeError ''JSONSchemaTraitlets'' ''import_statement'')"
  "getattr n ''trait_imports'' = Inl (AttributeError ''JSONSchemaTraitlets'' ''trait_imports'')"
  "getattr n ''object_imports'' = Inl (AttributeError ''JSONSchemaTraitlets'' ''object_imports'')"
  by (simp_all add: getattr_def attr_defaults_def)

lemma property_fallback_Inr [simp]: "property_fallback attr (Inr v) = Inr v"
  by (simp add: property_fallback_def)

lemma property_fallback_Inr_iff [simp]: "property_fallback attr r = Inr v \<longleftrightarrow> r = Inr v"
  by (auto simp: property_fallback_def split: sum.splits error.splits)

lemma property_fallback_idem [simp]:
  "property_fallback attr (property_fallback attr r) = property_fallback attr r"
  by (auto simp: property_fallback_def split: sum.splits error.splits)

lemma py_any_mono:
  "(\<And>x r. x \<in> set xs \<Longrightarrow> f x = Some r \<Longrightarrow> g x = Some r) \<Longrightarrow>
   py_any (map f xs) = Some r \<Longrightarrow> py_any (map g xs) = Some r"
proof (induction xs)
  case Nil
  then show ?case by simp
next
  case (Cons x xs)
  show ?case
  proof (cases "f x")
    case None
    with Cons.prems(2) show ?thesis by simp
  next
    case (Some v)
    then have g: "g x = Some v" using Cons.prems(1) by simp
    have tl: "py_any (map f xs) = Some r \<Longrightarrow> py_any (map g xs) = Some r"
      using Cons.IH Cons.prems(1) by simp
    show ?thesis
    proof (cases v)
      case (Inl e)
      with Some g Cons.prems(2) show ?thesis by auto
    next
      case (Inr b)
      with Some g Cons.prems(2) tl show ?thesis by (cases b) auto
    qed
  qed
qed

lemma py_all_mono:
  "(\<And>x r. x \<in> set xs \<Longrightarrow> f x = Some r \<Longrightarrow> g x = Some r) \<Longrightarrow>
   py_all (map f xs) = Some r \<Longrightarrow> py_all (map g xs) = Some r"
proof (induction xs)
  case Nil
  then show ?case by simp
next
  case (Cons x xs)
  show ?case
  proof (cases "f x")
    case None
    with Cons.prems(2) show ?thesis by simp
  next
    case (Some v)
    then have g: "g x = Some v" using Cons.prems(1) by simp
    have tl: "py_all (map f xs) = Some r \<Longrightarrow> py_all (map g xs) = Some r"
      using Cons.IH Cons.prems(1) by simp
    show ?thesis
    proof (cases v)
      case (Inl e)
      with Some g Cons.prems(2) show ?thesis by auto
    next
      case (Inr b)
      with Some g Cons.prems(2) tl show ?thesis by (cases b) auto
    qed
  qed
qed

lemma classify_mono:
  "(\<And>c r. P c = Some r \<Longrightarrow> Q c = Some r) \<Longrightarrow> classify P n s = Some r \<Longrightarrow> classify Q n s = Some r"
  by (auto simp: classify_def split: sum.splits)

lemma any_branch_mono:
  assumes "\<And>c r. P c = Some r \<Longrightarrow> Q c = Some r" and "any_branch P n key = Some r"
  shows "any_branch Q n key = Some r"
proof (cases "branches n key")
  case (Inl e)
  with assms(2) show ?thesis by (simp add: any_branch_def)
next
  case (Inr specs)
  with assms(2) have "py_any (map (classify P n) specs) = Some r"
    by (simp add: any_branch_def)
  then have "py_any (map (classify Q n) specs) = Some r"
    by (rule py_any_mono [rotated]) (rule classify_mono [OF assms(1)])
  with Inr show ?thesis by (simp add: any_branch_def)
qed

lemma all_branches_mono:
  assumes "\<And>c r. P c = Some r \<Longrightarrow> Q c = Some r" and "all_branches P n key = Some r"
  shows "all_branches Q n key = Some r"
proof (cases "branches n key")
  case (Inl e)
  with assms(2) show ?thesis by (simp add: all_branches_def)
next
  case (Inr specs)
  with assms(2) have "py_all (map (classify P n) specs) = Some r"
    by (simp add: all_branches_def)
  then have "py_all (map (classify Q n) specs) = Some r"
    by (rule py_all_mono [rotated]) (rule classify_mono [OF assms(1)])
  with Inr show ?thesis by (simp add: all_branches_def)
qed

lemma is_trait_getter_mono:
  assumes PQ: "\<And>c r. P c = Some r \<Longrightarrow> Q c = Some r" and "is_trait_getter P n = Some r"
  shows "is_trait_getter Q n = Some r"
  using assms(2) unfolding is_trait_getter_def
  by (auto split: if_splits sum.splits intro: PQ any_branch_mono [OF PQ])

lemma is_object_getter_mono:
  assumes PQ: "\<And>c r. P c = Some r \<Longrightarrow> Q c = Some r" and "is_object_getter P n = Some r"
  shows "is_object_getter Q n = Some r"
  using assms(2) unfolding is_object_getter_def
  by (auto split: if_splits sum.splits intro: PQ all_branches_mono [OF PQ])

lemma is_trait_body_mono:
  assumes PQ: "\<And>c r. P c = Some r \<Longrightarrow> Q c = Some r" and "is_trait_body P n = Some r"
  shows "is_trait_body Q n = Some r"
proof -
  from assms(2) obtain r0 where g: "is_trait_getter P n = Some r0"
    and r: "r = property_fallback ''is_trait'' r0"
    by (auto simp: is_trait_body_def)
  from PQ g have "is_trait_getter Q n = Some r0" by (rule is_trait_getter_mono)
  with r show ?thesis by (simp add: is_trait_body_def)
qed

lemma is_object_body_mono:
  assumes PQ: "\<And>c r. P c = Some r \<Longrightarrow> Q c = Some r" and "is_object_body P n = Some r"
  shows "is_object_body Q n = Some r"
proof -
  from assms(2) obtain r0 where g: "is_object_getter P n = Some r0"
    and r: "r = property_fallback ''is_object'' r0"
    by (auto simp: is_object_body_def)
  from PQ g have "is_object_getter Q n = Some r0" by (rule is_object_getter_mono)
  with r show ?thesis by (simp add: is_object_body_def)
qed

lemma is_trait_Suc_mono: "is_trait k n = Some r \<Longrightarrow> is_trait (Suc k) n = Some r"
proof (induction k arbitrary: n r)
  case 0
  then show ?case by simp
next
  case (Suc k)
  from Suc.prems have "is_trait_body (is_trait k) n = Some r" by simp
  then have "is_trait_body (is_trait (Suc k)) n = Some r"
    by (rule is_trait_body_mono [rotated]) (rule Suc.IH)
  then show ?case by simp
qed

lemma is_object_Suc_mono: "is_object k n = Some r \<Longrightarrow> is_object (Suc k) n = Some r"
proof (induction k arbitrary: n r)
  case 0
  then show ?case by simp
next
  case (Suc k)
  from Suc.prems have "is_object_body (is_object k) n = Some r" by simp
  then have "is_object_body (is_object (Suc k)) n = Some r"
    by (rule is_object_body_mono [rotated]) (rule Suc.IH)
  then show ?case by simp
qed

lemma is_trait_mono: "is_trait k n = Some r \<Longrightarrow> is_trait (k + j) n = Some r"
proof (induction j)
  case 0
  then show ?case by simp
next
  case (Suc j)
  then have "is_trait (Suc (k + j)) n = Some r" by (intro is_trait_Suc_mono) simp
  then show ?case by (simp only: add_Suc_right)
qed

lemma is_object_mono: "is_object k n = Some r \<Longrightarrow> is_object (k + j) n = Some r"
proof (induction j)
  case 0
  then show ?case by simp
next
  case (Suc j)
  then have "is_object (Suc (k + j)) n = Some r" by (intro is_object_Suc_mono) simp
  then show ?case by (simp only: add_Suc_right)
qed

section \<open>Evaluation on concrete documents\<close>

lemmas node_eval =
  color_root_def color_doc_def child_of_def JSONSchemaTraitlets_def schema_def contains_def
  getattr_def attr_defaults_def getitem_def branches_def union_key_def

lemmas ref_eval =
  wrapped_ref_def get_reference_def Spec2Isabelle.split_def root_def obj_root_def
  initialize_child_def obj_initialize_child_def

lemmas class_eval =
  is_trait_body_def is_object_body_def is_trait_getter_def is_object_getter_def
  property_fallback_def any_branch_def all_branches_def classify_def

section \<open>The decision tables of the classification\<close>

lemma getattr_type: "getattr n ''type'' = Inr (case map_of (schema n) ''type'' of Some v \<Rightarrow> v | None \<Rightarrow> JStr ''object'')"
  by (simp add: getattr_def attr_defaults_def)

lemma initialize_child_eq:
  "initialize_child n sch nm = (case sch of JObj m \<Rightarrow> Inr (child_of n m nm) | _ \<Rightarrow> Inl SchemaNotMapping)"
  by (simp add: initialize_child_def obj_initialize_child_def child_of_def split: json.splits)

lemma classify_mapping: "classify P n (JObj m) = P (child_of n m None)"
  by (simp add: classify_def initialize_child_eq)


lemma all_branches_classified:
  assumes "branches n key = Inr specs"
    and "\<forall>s\<in>set specs. \<exists>m b. s = JObj m \<and> P (child_of n m None) = Some (Inr b)"
  shows "all_branches P n key =
     Some (Inr (\<forall>s\<in>set specs. \<exists>m. s = JObj m \<and> P (child_of n m None) = Some (Inr True)))"
proof -
  have "\<forall>r\<in>set (map (classify P n) specs). \<exists>b. r = Some (Inr b)"
    using assms(2) by (auto simp: classify_mapping)
  then have "py_all (map (classify P n) specs) =
      Some (Inr (\<forall>r\<in>set (map (classify P n) specs). r = Some (Inr True)))"
    by (rule py_all_classified)
  moreover have "(\<forall>r\<in>set (map (classify P n) specs). r = Some (Inr True)) \<longleftrightarrow>
      (\<forall>s\<in>set specs. \<exists>m. s = JObj m \<and> P (child_of n m None) = Some (Inr True))"
    using assms(2) by (force simp: classify_mapping)
  ultimately show ?thesis using assms(1) by (simp add: all_branches_def)
qed

lemma union_key_cases:
  "union_key n = Some key \<Longrightarrow>
     (key = ''anyOf'' \<and> contains n ''anyOf'') \<or>
     (key = ''allOf'' \<and> \<not> contains n ''anyOf'' \<and> contains n ''allOf'') \<or>
     (key = ''oneOf'' \<and> \<not> contains n ''anyOf'' \<and> \<not> contains n ''allOf'' \<and> contains n ''oneOf'')"
  by (auto simp: union_key_def split: if_splits)

lemma union_key_None:
  "union_key n = None \<longleftrightarrow> \<not> contains n ''anyOf'' \<and> \<not> contains n ''allOf'' \<and> \<not> contains n ''oneOf''"
  by (auto simp: union_key_def)


lemma is_trait_getter_union:
  assumes "\<not> contains n ''properties''" "getattr n ''type'' = Inr (JStr ''object'')"
    "\<not> contains n ''enum''" "\<not> contains n ''$ref''" "union_key n = Some key"
  shows "is_trait_getter P n = any_branch P n key"
  using union_key_cases [OF assms(5)] assms(1-4) by (auto simp: is_trait_getter_def)

lemma is_object_getter_union:
  assumes "\<not> contains n ''properties''" "\<not> contains n ''$ref''" "union_key n = Some key"
  shows "is_object_getter P n = all_branches P n key"
  using union_key_cases [OF assms(3)] assms(1-2) by (auto simp: is_object_getter_def)

lemma is_trait_body_Inr:
  "is_trait_body P n = Some (Inr b) \<longleftrightarrow> is_trait_getter P n = Some (Inr b)"
  by (auto simp: is_trait_body_def)

lemma is_object_body_Inr:
  "is_object_body P n = Some (Inr b) \<longleftrightarrow> is_object_getter P n = Some (Inr b)"
  by (auto simp: is_object_body_def)


lemma is_object_fallback:
  "map_option (property_fallback ''is_object'') (is_object k n) = is_object k n"
  by (cases k) (simp_all add: is_object_body_def option.map_comp comp_def)


lemma all_branches_first:
  assumes "branches n key = Inr (pre @ s # post)"
    and "\<forall>p\<in>set pre. classify P n p = Some (Inr True)"
    and "classify P n s \<noteq> Some (Inr True)"
  shows "all_branches P n key = classify P n s"
  using assms(1) py_all_first [of pre "classify P n" s post, OF assms(2,3)]
  by (simp add: all_branches_def)



text \<open>
  Claim C2. The property \<open>is_object\<close> is true whenever \<open>properties\<close> is present; else, with
  \<open>$ref\<close>, it is \<open>is_object\<close> of the resolved target, and when the resolution fails it
  fails with the same error, an \<open>AttributeError\<close> becoming the one of the name
  \<open>is_object\<close>; else, for a node with a union keyword: when all branches are classified,
  it is true iff every branch, wrapped as a child, is an object; in general the first
  branch whose classification is not "an object" decides (no object, an error or no
  answer), the branches after it are not looked at, and a value that cannot be iterated
  fails; otherwise it is false. For the mapping \<open>{"type": "object"}\<close> both \<open>is_trait\<close> and
  \<open>is_object\<close> are false.
\<close>

theorem is_object_decision_table:
  "(contains n ''properties'' \<longrightarrow> is_object (Suc k) n = Some (Inr True)) \<and>
   (\<not> contains n ''properties'' \<and> contains n ''$ref'' \<longrightarrow>
      is_object (Suc k) n =
        (case wrapped_ref n of
           Inl e \<Rightarrow> Some (property_fallback ''is_object'' (Inl e))
         | Inr target \<Rightarrow> is_object k target)) \<and>
   (\<not> contains n ''properties'' \<and> \<not> contains n ''$ref'' \<and>
    union_key n = Some key \<and> branches n key = Inr specs \<and>
    (\<forall>s\<in>set specs. \<exists>m b. s = JObj m \<and> is_object k (child_of n m None) = Some (Inr b)) \<longrightarrow>
      is_object (Suc k) n =
        Some (Inr (\<forall>s\<in>set specs. \<exists>m. s = JObj m \<and>
                     is_object k (child_of n m None) = Some (Inr True)))) \<and>
   (\<not> contains n ''properties'' \<and> \<not> contains n ''$ref'' \<and>
    union_key n = Some key \<and> branches n key = Inr (pre @ d # post) \<and>
    (\<forall>p\<in>set pre. classify (is_object k) n p = Some (Inr True)) \<and>
    classify (is_object k) n d \<noteq> Some (Inr True) \<longrightarrow>
      is_object (Suc k) n =
        map_option (property_fallback ''is_object'') (classify (is_object k) n d)) \<and>
   (\<not> contains n ''properties'' \<and> \<not> contains n ''$ref'' \<and>
    union_key n = Some key \<and> branches n key = Inl err \<longrightarrow>
      is_object (Suc k) n = Some (property_fallback ''is_object'' (Inl err))) \<and>
   (\<not> contains n ''properties'' \<and> \<not> contains n ''$ref'' \<and> union_key n = None \<longrightarrow>
      is_object (Suc k) n = Some (Inr False)) \<and>
   (schema n = [(''type'', JStr ''object'')] \<longrightarrow>
      is_trait (Suc k) n = Some (Inr False) \<and> is_object (Suc k) n = Some (Inr False))"
proof (intro conjI impI)
  assume "contains n ''properties''"
  then show "is_object (Suc k) n = Some (Inr True)"
    by (simp add: is_object_body_def is_object_getter_def)
next
  assume a: "\<not> contains n ''properties'' \<and> contains n ''$ref''"
  show "is_object (Suc k) n =
      (case wrapped_ref n of
         Inl e \<Rightarrow> Some (property_fallback ''is_object'' (Inl e))
       | Inr target \<Rightarrow> is_object k target)"
  proof (cases "wrapped_ref n")
    case (Inl e)
    with a show ?thesis by (simp add: is_object_body_def is_object_getter_def)
  next
    case (Inr target)
    with a have "is_object (Suc k) n
        = map_option (property_fallback ''is_object'') (is_object k target)"
      by (simp add: is_object_body_def is_object_getter_def)
    with Inr show ?thesis by (simp add: is_object_fallback)
  qed
next
  assume a: "\<not> contains n ''properties'' \<and> \<not> contains n ''$ref'' \<and>
    union_key n = Some key \<and> branches n key = Inr specs \<and>
    (\<forall>s\<in>set specs. \<exists>m b. s = JObj m \<and> is_object k (child_of n m None) = Some (Inr b))"
  then have "is_object_getter (is_object k) n = all_branches (is_object k) n key"
    by (simp add: is_object_getter_union)
  also have "\<dots> = Some (Inr (\<forall>s\<in>set specs. \<exists>m. s = JObj m \<and>
                     is_object k (child_of n m None) = Some (Inr True)))"
    using a by (intro all_branches_classified) simp_all
  finally show "is_object (Suc k) n =
        Some (Inr (\<forall>s\<in>set specs. \<exists>m. s = JObj m \<and>
                     is_object k (child_of n m None) = Some (Inr True)))"
    by (simp add: is_object_body_def)
next
  assume a: "\<not> contains n ''properties'' \<and> \<not> contains n ''$ref'' \<and>
    union_key n = Some key \<and> branches n key = Inr (pre @ d # post) \<and>
    (\<forall>p\<in>set pre. classify (is_object k) n p = Some (Inr True)) \<and>
    classify (is_object k) n d \<noteq> Some (Inr True)"
  then have "is_object_getter (is_object k) n = all_branches (is_object k) n key"
    by (simp add: is_object_getter_union)
  also have "\<dots> = classify (is_object k) n d"
  proof (rule all_branches_first)
    from a show "branches n key = Inr (pre @ d # post)" by blast
    from a show "\<forall>p\<in>set pre. classify (is_object k) n p = Some (Inr True)" by blast
    from a show "classify (is_object k) n d \<noteq> Some (Inr True)" by blast
  qed
  finally show "is_object (Suc k) n =
      map_option (property_fallback ''is_object'') (classify (is_object k) n d)"
    by (simp add: is_object_body_def)
next
  assume a: "\<not> contains n ''properties'' \<and> \<not> contains n ''$ref'' \<and>
    union_key n = Some key \<and> branches n key = Inl err"
  then have "is_object_getter (is_object k) n = all_branches (is_object k) n key"
    by (simp add: is_object_getter_union)
  with a show "is_object (Suc k) n = Some (property_fallback ''is_object'' (Inl err))"
    by (simp add: is_object_body_def all_branches_def)
next
  assume "\<not> contains n ''properties'' \<and> \<not> contains n ''$ref'' \<and> union_key n = None"
  then show "is_object (Suc k) n = Some (Inr False)"
    by (simp add: is_object_body_def is_object_getter_def union_key_None)
next
  assume "schema n = [(''type'', JStr ''object'')]"
  then show "is_trait (Suc k) n = Some (Inr False)"
    by (simp add: is_trait_body_def is_trait_getter_def contains_def getattr_type)
next
  assume "schema n = [(''type'', JStr ''object'')]"
  then show "is_object (Suc k) n = Some (Inr False)"
    by (simp add: is_object_body_def is_object_getter_def contains_def)
qed

theorem is_object_decision_table_witness:
  "is_object (Suc 0) color_root = Some (Inr True) \<and>
   is_object (Suc (Suc 0)) (child_of color_root [(''$ref'', JStr ''#/definitions/Color'')] None)
     = Some (Inr False) \<and>
   is_object (Suc 0) (child_of color_root [(''$ref'', JNum 5)] None)
     = Some (Inl (AttributeError ''JSONSchemaTraitlets'' ''is_object'')) \<and>
   is_object (Suc (Suc 0))
     (child_of color_root
        [(''anyOf'', JArr [JObj [(''properties'', JObj [])], JObj [(''properties'', JObj [])]])]
        None) = Some (Inr True) \<and>
   is_object (Suc (Suc 0))
     (child_of color_root
        [(''anyOf'', JArr [JObj [(''properties'', JObj [])], JObj [(''type'', JStr ''number'')],
                           JObj [(''$ref'', JStr ''bad'')]])]
        None) = Some (Inr False) \<and>
   is_object (Suc (Suc 0))
     (child_of color_root
        [(''anyOf'', JArr [JObj [(''$ref'', JStr ''bad'')], JObj [(''type'', JStr ''number'')]])]
        None) = Some (Inl (UnrecognizedRefFormat ''bad'')) \<and>
   is_object (Suc 0) (child_of color_root [(''anyOf'', JNum 1)] None) = Some (Inl TypeError) \<and>
   is_object (Suc 0) (child_of color_root [] None) = Some (Inr False) \<and>
   is_trait (Suc 0) (child_of color_root [(''type'', JStr ''object'')] None) = Some (Inr False) \<and>
   is_object (Suc 0) (child_of color_root [(''type'', JStr ''object'')] None) = Some (Inr False)"
proof -
  let ?ref = "child_of color_root [(''$ref'', JStr ''#/definitions/Color'')] None"
  let ?num = "child_of color_root [(''$ref'', JNum 5)] None"
  let ?specs = "[JObj [(''properties'', JObj [])], JObj [(''properties'', JObj [])]]"
  let ?union = "child_of color_root [(''anyOf'', JArr ?specs)] None"
  let ?last = "child_of color_root
        [(''anyOf'', JArr [JObj [(''properties'', JObj [])], JObj [(''type'', JStr ''number'')],
                           JObj [(''$ref'', JStr ''bad'')]])] None"
  let ?first = "child_of color_root
        [(''anyOf'', JArr [JObj [(''$ref'', JStr ''bad'')], JObj [(''type'', JStr ''number'')]])]
        None"
  let ?noiter = "child_of color_root [(''anyOf'', JNum 1)] None"
  let ?empty = "child_of color_root [] None"
  let ?obj = "child_of color_root [(''type'', JStr ''object'')] None"
  have r1: "contains color_root ''properties''" by (simp add: node_eval)
  have r2: "\<not> contains ?ref ''properties'' \<and> contains ?ref ''$ref''"
    by (simp add: node_eval)
  have t2: "(case wrapped_ref ?ref of
         Inl e \<Rightarrow> Some (property_fallback ''is_object'' (Inl e))
       | Inr target \<Rightarrow> is_object (Suc 0) target)
      = Some (Inr False)"
    by (simp add: node_eval ref_eval class_eval)
  have r2n: "\<not> contains ?num ''properties'' \<and> contains ?num ''$ref''"
    by (simp add: node_eval)
  have t2n: "(case wrapped_ref ?num of
         Inl e \<Rightarrow> Some (property_fallback ''is_object'' (Inl e))
       | Inr target \<Rightarrow> is_object 0 target)
      = Some (Inl (AttributeError ''JSONSchemaTraitlets'' ''is_object''))"
    by (simp add: node_eval ref_eval class_eval)
  have r3: "\<not> contains ?union ''properties'' \<and> \<not> contains ?union ''$ref'' \<and>
      union_key ?union = Some ''anyOf'' \<and> branches ?union ''anyOf'' = Inr ?specs \<and>
      (\<forall>s\<in>set ?specs. \<exists>m b. s = JObj m \<and> is_object (Suc 0) (child_of ?union m None) = Some (Inr b))"
    by (auto simp: node_eval class_eval)
  have t3: "(\<forall>s\<in>set ?specs. \<exists>m. s = JObj m \<and>
      is_object (Suc 0) (child_of ?union m None) = Some (Inr True))"
    by (simp add: node_eval class_eval)
  have r4: "\<not> contains ?last ''properties'' \<and> \<not> contains ?last ''$ref'' \<and>
      union_key ?last = Some ''anyOf'' \<and>
      branches ?last ''anyOf'' = Inr ([JObj [(''properties'', JObj [])]]
         @ JObj [(''type'', JStr ''number'')] # [JObj [(''$ref'', JStr ''bad'')]]) \<and>
      (\<forall>p\<in>set [JObj [(''properties'', JObj [])]].
         classify (is_object (Suc 0)) ?last p = Some (Inr True)) \<and>
      classify (is_object (Suc 0)) ?last (JObj [(''type'', JStr ''number'')]) \<noteq> Some (Inr True)"
    by (simp add: node_eval class_eval ref_eval)
  have t4: "map_option (property_fallback ''is_object'')
      (classify (is_object (Suc 0)) ?last (JObj [(''type'', JStr ''number'')])) = Some (Inr False)"
    by (simp add: node_eval class_eval ref_eval)
  have r5: "\<not> contains ?first ''properties'' \<and> \<not> contains ?first ''$ref'' \<and>
      union_key ?first = Some ''anyOf'' \<and>
      branches ?first ''anyOf'' = Inr ([]
         @ JObj [(''$ref'', JStr ''bad'')] # [JObj [(''type'', JStr ''number'')]]) \<and>
      (\<forall>p\<in>set []. classify (is_object (Suc 0)) ?first p = Some (Inr True)) \<and>
      classify (is_object (Suc 0)) ?first (JObj [(''$ref'', JStr ''bad'')]) \<noteq> Some (Inr True)"
    by (simp add: node_eval class_eval ref_eval)
  have t5: "map_option (property_fallback ''is_object'')
      (classify (is_object (Suc 0)) ?first (JObj [(''$ref'', JStr ''bad'')]))
      = Some (Inl (UnrecognizedRefFormat ''bad''))"
    by (simp add: node_eval class_eval ref_eval)
  have r6: "\<not> contains ?noiter ''properties'' \<and> \<not> contains ?noiter ''$ref'' \<and>
      union_key ?noiter = Some ''anyOf'' \<and> branches ?noiter ''anyOf'' = Inl TypeError"
    by (simp add: node_eval)
  have r7: "\<not> contains ?empty ''properties'' \<and> \<not> contains ?empty ''$ref'' \<and> union_key ?empty = None"
    by (simp add: node_eval)
  have r8: "schema ?obj = [(''type'', JStr ''object'')]" by (simp add: node_eval)
  from r1 is_object_decision_table [where n = color_root and k = 0]
  have c1: "is_object (Suc 0) color_root = Some (Inr True)" by blast
  from r2 is_object_decision_table [where n = ?ref and k = "Suc 0"]
  have "is_object (Suc (Suc 0)) ?ref =
      (case wrapped_ref ?ref of
         Inl e \<Rightarrow> Some (property_fallback ''is_object'' (Inl e))
       | Inr target \<Rightarrow> is_object (Suc 0) target)"
    by blast
  with t2 have c2: "is_object (Suc (Suc 0)) ?ref = Some (Inr False)" by simp
  from r2n is_object_decision_table [where n = ?num and k = 0]
  have "is_object (Suc 0) ?num =
      (case wrapped_ref ?num of
         Inl e \<Rightarrow> Some (property_fallback ''is_object'' (Inl e))
       | Inr target \<Rightarrow> is_object 0 target)"
    by blast
  with t2n have c2n: "is_object (Suc 0) ?num
      = Some (Inl (AttributeError ''JSONSchemaTraitlets'' ''is_object''))"
    by simp
  from r3 is_object_decision_table [where n = ?union and k = "Suc 0" and key = "''anyOf''"
      and specs = ?specs]
  have "is_object (Suc (Suc 0)) ?union =
      Some (Inr (\<forall>s\<in>set ?specs. \<exists>m. s = JObj m \<and>
        is_object (Suc 0) (child_of ?union m None) = Some (Inr True)))"
    by blast
  with t3 have c3: "is_object (Suc (Suc 0)) ?union = Some (Inr True)" by simp
  from r4 is_object_decision_table [where n = ?last and k = "Suc 0" and key = "''anyOf''"
      and pre = "[JObj [(''properties'', JObj [])]]" and d = "JObj [(''type'', JStr ''number'')]"
      and post = "[JObj [(''$ref'', JStr ''bad'')]]"]
  have "is_object (Suc (Suc 0)) ?last = map_option (property_fallback ''is_object'')
      (classify (is_object (Suc 0)) ?last (JObj [(''type'', JStr ''number'')]))"
    by blast
  with t4 have c4: "is_object (Suc (Suc 0)) ?last = Some (Inr False)" by simp
  from r5 is_object_decision_table [where n = ?first and k = "Suc 0" and key = "''anyOf''"
      and pre = "[]" and d = "JObj [(''$ref'', JStr ''bad'')]"
      and post = "[JObj [(''type'', JStr ''number'')]]"]
  have "is_object (Suc (Suc 0)) ?first = map_option (property_fallback ''is_object'')
      (classify (is_object (Suc 0)) ?first (JObj [(''$ref'', JStr ''bad'')]))"
    by blast
  with t5 have c5: "is_object (Suc (Suc 0)) ?first = Some (Inl (UnrecognizedRefFormat ''bad''))"
    by simp
  from r6 is_object_decision_table [where n = ?noiter and k = 0 and key = "''anyOf''"
      and err = TypeError]
  have c6: "is_object (Suc 0) ?noiter = Some (Inl TypeError)"
    by (simp add: property_fallback_def)
  from r7 is_object_decision_table [where n = ?empty and k = 0]
  have c7: "is_object (Suc 0) ?empty = Some (Inr False)" by blast
  from r8 is_object_decision_table [where n = ?obj and k = 0]
  have c8: "is_trait (Suc 0) ?obj = Some (Inr False) \<and> is_object (Suc 0) ?obj = Some (Inr False)"
    by blast
  from c1 c2 c2n c3 c4 c5 c6 c7 c8 show ?thesis by blast
qed

section \<open>Trait and object together\<close>

lemma walk_unmixed: "walk j ks = Inr j' \<Longrightarrow> unmixed j \<Longrightarrow> unmixed j'"
proof (induction ks arbitrary: j)
  case Nil
  then show ?case by simp
next
  case (Cons key ks)
  from Cons.prems(1) obtain kvs v where j: "j = JObj kvs" and v: "map_of kvs key = Some v"
    and w: "walk v ks = Inr j'"
    by (auto split: json.splits option.splits)
  from v have "(key, v) \<in> set kvs" by (rule map_of_SomeD)
  with Cons.prems(2) j have "unmixed v" by auto
  with w show ?case by (rule Cons.IH)
qed

lemma schema_child_of [simp]: "schema (child_of n m nm) = m"
  by (simp add: schema_def child_of_def JSONSchemaTraitlets_def)

lemma root_doc_child_of [simp]: "root_doc (schemaobj (child_of n m nm)) = root_doc (schemaobj n)"
  by (simp add: child_of_def JSONSchemaTraitlets_def)

lemma name_child_of [simp]: "name (child_of n m nm) = nm"
  by (simp add: name_def child_of_def JSONSchemaTraitlets_def)

lemma schema_root_node [simp]: "schema (JSONSchemaTraitlets (root n)) = root_doc (schemaobj n)"
  by (simp add: schema_def JSONSchemaTraitlets_def root_def obj_root_def)

lemma root_doc_root_node [simp]:
  "root_doc (schemaobj (JSONSchemaTraitlets (root n))) = root_doc (schemaobj n)"
  by (simp add: JSONSchemaTraitlets_def root_def obj_root_def)

lemma obj_schema_root [simp]: "obj_schema (root n) = root_doc (schemaobj n)"
  by (simp add: root_def obj_root_def)

lemma get_reference_cases:
  assumes "get_reference n ref = Inr t"
  obtains (root) "t = JSONSchemaTraitlets (root n)"
  | (child) s p0 rest m where "ref = JStr s" "split s CHR ''/'' = p0 # rest"
      "walk (JObj (root_doc (schemaobj n))) rest = Inr (JObj m)"
      "t = child_of n m (Some (last (p0 # rest)))"
  using assms unfolding get_reference_def
  by (auto simp: Let_def initialize_child_eq
      split: if_splits json.splits list.splits sum.splits error.splits)

lemma wrapped_ref_unmixed:
  assumes "wrapped_ref n = Inr t" and "unmixed (JObj (root_doc (schemaobj n)))"
  shows "root_doc (schemaobj t) = root_doc (schemaobj n) \<and> unmixed (JObj (schema t))"
proof -
  from assms(1) obtain ref where "get_reference n ref = Inr t"
    by (auto simp: wrapped_ref_def split: option.splits)
  then show ?thesis
  proof (cases rule: get_reference_cases)
    case root
    with assms(2) show ?thesis by simp
  next
    case (child s p0 rest m)
    from child(3) assms(2) have "unmixed (JObj m)" by (rule walk_unmixed)
    with child(4) show ?thesis by simp
  qed
qed

lemma branches_unmixed:
  assumes "branches n key = Inr specs" and "JObj m \<in> set specs" and "unmixed (JObj (schema n))"
  shows "unmixed (JObj m)"
proof -
  from assms(1) obtain v where v: "map_of (schema n) key = Some v" and it: "py_iter v = Inr specs"
    by (auto simp: branches_def getitem_def split: option.splits)
  from v have "(key, v) \<in> set (schema n)" by (rule map_of_SomeD)
  with assms(3) have uv: "unmixed v" by auto
  from it assms(2) have "v = JArr specs" by (cases v) auto
  with uv have "\<forall>x\<in>set specs. unmixed x" by simp
  with assms(2) show ?thesis by blast
qed

lemma classify_True:
  "classify P n s = Some (Inr True) \<Longrightarrow> \<exists>m. s = JObj m \<and> P (child_of n m None) = Some (Inr True)"
  by (auto simp: classify_def initialize_child_eq split: json.splits)

lemma contains_map_of: "contains n key \<longleftrightarrow> map_of (schema n) key \<noteq> None"
  by (simp add: contains_def map_of_eq_None_iff)

lemma not_trait_and_object:
  "unmixed (JObj (root_doc (schemaobj n))) \<Longrightarrow> unmixed (JObj (schema n)) \<Longrightarrow>
   is_trait k1 n = Some (Inr True) \<Longrightarrow> is_object k2 n = Some (Inr True) \<Longrightarrow> False"
proof (induction k1 arbitrary: n k2)
  case 0
  then show ?case by simp
next
  case (Suc k1)
  from Suc.prems(4) obtain k2' where k2: "k2 = Suc k2'" by (cases k2) auto
  from Suc.prems(3) have T: "is_trait_getter (is_trait k1) n = Some (Inr True)"
    by (simp add: is_trait_body_Inr)
  from Suc.prems(4) k2 have O: "is_object_getter (is_object k2') n = Some (Inr True)"
    by (simp add: is_object_body_Inr)
  from T have np: "\<not> contains n ''properties''"
    by (auto simp: is_trait_getter_def split: if_splits)
  from Suc.prems(2) have nm: "\<not> mixed (schema n)" by simp
  show ?case
  proof (cases "getattr n ''type'' \<noteq> Inr (JStr ''object'') \<or> contains n ''enum''")
    case True
    with np nm have "\<not> contains n ''$ref'' \<and> union_key n = None"
      by (auto simp: mixed_def contains_def getattr_type union_key_def split: option.splits)
    with np O show ?thesis by (simp add: is_object_getter_def union_key_None)
  next
    case False
    then have ty: "getattr n ''type'' = Inr (JStr ''object'')" and ne: "\<not> contains n ''enum''"
      by simp_all
    show ?thesis
    proof (cases "contains n ''$ref''")
      case True
      with T np ty ne obtain t where t: "wrapped_ref n = Inr t" and tt: "is_trait k1 t = Some (Inr True)"
        by (auto simp: is_trait_getter_def split: sum.splits)
      from O np True t have ot: "is_object k2' t = Some (Inr True)"
        by (simp add: is_object_getter_def)
      from wrapped_ref_unmixed [OF t Suc.prems(1)] Suc.prems(1)
      have "unmixed (JObj (root_doc (schemaobj t)))" "unmixed (JObj (schema t))" by simp_all
      then show ?thesis using tt ot by (rule Suc.IH)
    next
      case nr: False
      show ?thesis
      proof (cases "union_key n")
        case None
        with T np ty ne nr show ?thesis by (simp add: is_trait_getter_def union_key_None)
      next
        case (Some key)
        from T have "any_branch (is_trait k1) n key = Some (Inr True)"
          by (simp add: is_trait_getter_union [OF np ty ne nr Some])
        moreover from O have "all_branches (is_object k2') n key = Some (Inr True)"
          by (simp add: is_object_getter_union [OF np nr Some])
        ultimately obtain specs where br: "branches n key = Inr specs"
          and any: "py_any (map (classify (is_trait k1) n) specs) = Some (Inr True)"
          and all: "py_all (map (classify (is_object k2') n) specs) = Some (Inr True)"
          by (auto simp: any_branch_def all_branches_def split: sum.splits)
        from py_any_True [OF any] obtain s where s: "s \<in> set specs"
          and cs: "classify (is_trait k1) n s = Some (Inr True)" by auto
        from classify_True [OF cs] obtain m where m: "s = JObj m"
          and tm: "is_trait k1 (child_of n m None) = Some (Inr True)" by auto
        from s have "classify (is_object k2') n s \<in> set (map (classify (is_object k2') n) specs)"
          by simp
        with all have "classify (is_object k2') n s = Some (Inr True)" by (rule py_all_True)
        with m have om: "is_object k2' (child_of n m None) = Some (Inr True)"
          by (simp add: classify_mapping)
        from s m have "JObj m \<in> set specs" by simp
        with br have "unmixed (JObj m)" using Suc.prems(2) by (rule branches_unmixed)
        then have "unmixed (JObj (schema (child_of n m None)))" by simp
        moreover from Suc.prems(1) have "unmixed (JObj (root_doc (schemaobj (child_of n m None))))"
          by simp
        ultimately show ?thesis using tm om by (intro Suc.IH [of "child_of n m None" k2'])
      qed
    qed
  qed
qed

text \<open>
  Claim C3, as stated, fails: the two properties are computed independently, and a node
  that declares the type \<open>"string"\<close> beside a union of object branches is both a trait (by
  its type) and an object (by its branches).
\<close>

theorem trait_and_object_counterexample:
  "is_trait (Suc (Suc 0)) string_union_root = Some (Inr True) \<and>
   is_object (Suc (Suc 0)) string_union_root = Some (Inr True)"
  by (simp add: string_union_root_def string_union_doc_def node_eval ref_eval class_eval)

text \<open>
  Claim C3, amended. In a document none of whose mappings is mixed (no mapping without
  \<open>properties\<close> combines a type other than \<open>"object"\<close>, or an \<open>enum\<close>, with \<open>$ref\<close>,
  \<open>anyOf\<close>, \<open>allOf\<close> or \<open>oneOf\<close>), \<open>is_trait\<close> and \<open>is_object\<close> are never both true
  of a node, whatever the depth each is computed with; both may be false.
\<close>

theorem trait_object_exclusive:
  "unmixed (JObj (root_doc (schemaobj n))) \<Longrightarrow> unmixed (JObj (schema n)) \<Longrightarrow>
   \<not> (is_trait k1 n = Some (Inr True) \<and> is_object k2 n = Some (Inr True))"
  using not_trait_and_object [of n k1 k2] by blast

theorem trait_object_exclusive_witness:
  "unmixed (JObj (root_doc (schemaobj color_root))) \<and> unmixed (JObj (schema color_root)) \<and>
   is_object (Suc 0) color_root = Some (Inr True) \<and>
   \<not> (is_trait (Suc 0) color_root = Some (Inr True) \<and>
      is_object (Suc 0) color_root = Some (Inr True))"
proof -
  have u1: "unmixed (JObj (root_doc (schemaobj color_root)))"
    by (simp add: color_root_def color_doc_def JSONSchemaTraitlets_def mixed_def)
  have u2: "unmixed (JObj (schema color_root))"
    by (simp add: color_root_def color_doc_def JSONSchemaTraitlets_def schema_def mixed_def)
  have o: "is_object (Suc 0) color_root = Some (Inr True)"
    by (simp add: node_eval class_eval)
  from trait_object_exclusive [OF u1 u2, of "Suc 0" "Suc 0"] u1 u2 o show ?thesis by blast
qed

section \<open>Reference resolution\<close>

lemma split_acc_no_sep: "c \<notin> set xs \<Longrightarrow> split_acc c acc xs = [rev acc @ xs]"
  by (induction xs arbitrary: acc) auto

lemma split_acc_segment:
  "c \<notin> set k \<Longrightarrow> split_acc c acc (k @ c # rest) = (rev acc @ k) # split_acc c [] rest"
  by (induction k arbitrary: acc) auto

lemma split_acc_join:
  "c \<notin> set p \<Longrightarrow> \<forall>k\<in>set ks. c \<notin> set k \<Longrightarrow>
   split_acc c acc (p @ concat (map ((#) c) ks)) = (rev acc @ p) # ks"
proof (induction ks arbitrary: acc p)
  case Nil
  then show ?case by (simp add: split_acc_no_sep)
next
  case (Cons k ks)
  have "split_acc c acc (p @ concat (map ((#) c) (k # ks))) =
      split_acc c acc (p @ c # (k @ concat (map ((#) c) ks)))" by simp
  also have "\<dots> = (rev acc @ p) # split_acc c [] (k @ concat (map ((#) c) ks))"
    using Cons.prems(1) by (rule split_acc_segment)
  also have "split_acc c [] (k @ concat (map ((#) c) ks)) = k # ks"
    using Cons.IH [of k "[]"] Cons.prems(2) by simp
  finally show ?case .
qed

lemma split_path:
  "\<forall>k\<in>set ks. CHR ''/'' \<notin> set k \<Longrightarrow>
   split (''#'' @ concat (map ((#) CHR ''/'') ks)) CHR ''/'' = ''#'' # ks"
  unfolding Spec2Isabelle.split_def
  using split_acc_join [of "CHR ''/''" "''#''" ks "[]"] by simp

lemma split_acc_first:
  "\<exists>rest. split_acc c acc s = (rev acc @ takeWhile (\<lambda>x. x \<noteq> c) s) # rest"
proof (induction s arbitrary: acc)
  case Nil
  then show ?case by simp
next
  case (Cons a s)
  show ?case
  proof (cases "a = c")
    case True
    then show ?thesis by simp
  next
    case False
    with Cons [of "a # acc"] show ?thesis by simp
  qed
qed

lemma split_first: "\<exists>rest. split s c = takeWhile (\<lambda>x. x \<noteq> c) s # rest"
  unfolding Spec2Isabelle.split_def using split_acc_first [of c "[]" s] by simp

lemma get_reference_path:
  assumes "\<forall>k\<in>set (key # keys). CHR ''/'' \<notin> set k" and "key \<noteq> []"
    and "s = ''#'' @ concat (map ((#) CHR ''/'') (key # keys))"
  shows "get_reference n (JStr s) =
     (case walk (JObj (root_doc (schemaobj n))) (key # keys) of
        Inl (KeyError k) \<Rightarrow> Inl (RefNotPresent s)
      | Inl e \<Rightarrow> Inl e
      | Inr sch \<Rightarrow> initialize_child n sch (Some (last (key # keys))))"
proof -
  have sp: "split s CHR ''/'' = ''#'' # key # keys"
    unfolding assms(3) using assms(1) by (rule split_path)
  have ne: "s \<noteq> []" by (simp add: assms(3))
  show ?thesis
    unfolding get_reference_def using assms(2) ne
    by (simp add: sp Let_def del: walk.simps)
qed

lemma get_reference_empty: "get_reference n (JStr []) = Inl EmptyReference"
  by (simp add: get_reference_def)

lemma get_reference_bad_lead:
  assumes "s \<noteq> []" and "takeWhile (\<lambda>x. x \<noteq> CHR ''/'') s \<noteq> ''#''"
  shows "get_reference n (JStr s) = Inl (UnrecognizedRefFormat s)"
proof -
  from split_first [of s "CHR ''/''"] obtain rest
    where "split s CHR ''/'' = takeWhile (\<lambda>x. x \<noteq> CHR ''/'') s # rest" by blast
  with assms show ?thesis by (simp add: get_reference_def Let_def)
qed

lemma get_reference_hash: "get_reference n (JStr ''#'') = Inr (JSONSchemaTraitlets (root n))"
  by (simp add: get_reference_def Spec2Isabelle.split_def)

lemma get_reference_empty_second:
  assumes "takeWhile (\<lambda>x. x \<noteq> CHR ''/'') t = []"
  shows "get_reference n (JStr (''#/'' @ t)) = Inr (JSONSchemaTraitlets (root n))"
proof -
  from split_acc_first [of "CHR ''/''" "[]" t] assms obtain rest
    where "split_acc CHR ''/'' [] t = [] # rest" by auto
  then show ?thesis by (simp add: get_reference_def Spec2Isabelle.split_def)
qed

text \<open>
  Claim C4. From any node \<open>n\<close> of a document whose \<open>definitions\<close> hold a mapping under
  the name \<open>nm\<close> (a name without \<open>/\<close>, such as \<open>Foo\<close>), resolving \<open>#/definitions/nm\<close>
  returns a node whose schema is that mapping, looked up in the document of the root of
  \<open>n\<close> and not in the schema of \<open>n\<close>; the node is named \<open>nm\<close> and has the root of \<open>n\<close>.
  Resolving \<open>#\<close> returns a node that wraps the root object: it is the root, and its schema
  is the root's document.
\<close>

theorem get_reference_definition:
  assumes "map_of (root_doc (schemaobj n)) ''definitions'' = Some (JObj defs)"
    and "map_of defs nm = Some (JObj m)"
    and "CHR ''/'' \<notin> set nm"
  shows "get_reference n (JStr (''#/definitions/'' @ nm)) = Inr (child_of n m (Some nm)) \<and>
     schema (child_of n m (Some nm)) = m \<and>
     name (child_of n m (Some nm)) = Some nm \<and>
     root (child_of n m (Some nm)) = root n \<and>
     get_reference n (JStr ''#'') = Inr (JSONSchemaTraitlets (root n)) \<and>
     schemaobj (JSONSchemaTraitlets (root n)) = root n \<and>
     is_root (JSONSchemaTraitlets (root n)) \<and>
     schema (JSONSchemaTraitlets (root n)) = root_doc (schemaobj n)"
proof -
  have sl: "\<forall>k\<in>set [''definitions'', nm]. CHR ''/'' \<notin> set k"
    using assms(3) by simp
  have "get_reference n (JStr (''#/definitions/'' @ nm)) =
      (case walk (JObj (root_doc (schemaobj n))) [''definitions'', nm] of
         Inl (KeyError k) \<Rightarrow> Inl (RefNotPresent (''#/definitions/'' @ nm))
       | Inl e \<Rightarrow> Inl e
       | Inr sch \<Rightarrow> initialize_child n sch (Some (last [''definitions'', nm])))"
    by (rule get_reference_path [OF sl]) simp_all
  also have "walk (JObj (root_doc (schemaobj n))) [''definitions'', nm] = Inr (JObj m)"
    using assms(1,2) by simp
  finally have "get_reference n (JStr (''#/definitions/'' @ nm)) = Inr (child_of n m (Some nm))"
    by (simp add: initialize_child_eq)
  moreover have "root (child_of n m (Some nm)) = root n"
    by (simp add: root_def obj_root_def child_of_def JSONSchemaTraitlets_def)
  moreover have "schemaobj (JSONSchemaTraitlets (root n)) = root n"
    by (simp add: JSONSchemaTraitlets_def)
  moreover have "is_root (JSONSchemaTraitlets (root n))"
    by (simp add: is_root_def JSONSchemaTraitlets_def root_def obj_root_def)
  ultimately show ?thesis by (simp add: get_reference_hash)
qed

theorem get_reference_definition_witness:
  "get_reference (child_of color_root [(''$ref'', JStr ''#/definitions/Color'')] None)
     (JStr ''#/definitions/Color'')
   = Inr (child_of (child_of color_root [(''$ref'', JStr ''#/definitions/Color'')] None)
            [(''enum'', JArr [JStr ''red'', JStr ''green''])] (Some ''Color'')) \<and>
   get_reference (child_of color_root [(''$ref'', JStr ''#/definitions/Color'')] None) (JStr ''#'')
   = Inr color_root"
proof -
  let ?n = "child_of color_root [(''$ref'', JStr ''#/definitions/Color'')] None"
  have a1: "map_of (root_doc (schemaobj ?n)) ''definitions''
      = Some (JObj [(''Color'', JObj [(''enum'', JArr [JStr ''red'', JStr ''green''])])])"
    by (simp add: color_root_def color_doc_def JSONSchemaTraitlets_def)
  have a2: "map_of [(''Color'', JObj [(''enum'', JArr [JStr ''red'', JStr ''green''])])] ''Color''
      = Some (JObj [(''enum'', JArr [JStr ''red'', JStr ''green''])])"
    by simp
  have a3: "CHR ''/'' \<notin> set ''Color''" by simp
  have r: "JSONSchemaTraitlets (root ?n) = color_root"
    by (simp add: color_root_def JSONSchemaTraitlets_def root_def obj_root_def child_of_def)
  from get_reference_definition [OF a1 a2 a3] r show ?thesis by simp
qed

text \<open>
  Claim C5, as stated, fails: resolution walks any path of keys below the root, so a
  reference such as \<open>#/properties/color\<close> is accepted, and so is \<open>#/\<close>.
\<close>

theorem get_reference_other_shape_counterexample:
  "get_reference color_root (JStr ''#/properties/color'')
     = Inr (child_of color_root [(''$ref'', JStr ''#/definitions/Color'')] (Some ''color'')) \<and>
   get_reference color_root (JStr ''#/'') = Inr color_root"
  by (simp add: node_eval ref_eval)

text \<open>
  Claim C5, amended. For a reference string: the empty string fails with the error "empty
  reference" (which carries no string); a non-empty string whose leading segment is not
  \<open>#\<close> fails with the format error carrying the string; \<open>#\<close>, and \<open>#/\<close> followed by an empty
  second segment, give the root; and every \<open>#/k1/.../kn\<close> with a non-empty \<open>k1\<close> is
  resolved by walking the keys from the root's document, whatever the keys are: it gives
  the child that wraps the mapping found, named \<open>kn\<close>, and fails with "not present",
  carrying the string, when a key is missing.
\<close>

theorem get_reference_forms:
  "get_reference n (JStr '''') = Inl EmptyReference \<and>
   (s \<noteq> '''' \<and> takeWhile (\<lambda>x. x \<noteq> CHR ''/'') s \<noteq> ''#'' \<longrightarrow>
      get_reference n (JStr s) = Inl (UnrecognizedRefFormat s)) \<and>
   get_reference n (JStr ''#'') = Inr (JSONSchemaTraitlets (root n)) \<and>
   (takeWhile (\<lambda>x. x \<noteq> CHR ''/'') t = '''' \<longrightarrow>
      get_reference n (JStr (''#/'' @ t)) = Inr (JSONSchemaTraitlets (root n))) \<and>
   ((\<forall>k\<in>set (key # keys). CHR ''/'' \<notin> set k) \<and> key \<noteq> '''' \<and>
    walk (JObj (root_doc (schemaobj n))) (key # keys) = Inr (JObj m) \<longrightarrow>
      get_reference n (JStr (''#'' @ concat (map ((#) CHR ''/'') (key # keys))))
        = Inr (child_of n m (Some (last (key # keys))))) \<and>
   ((\<forall>k\<in>set (key # keys). CHR ''/'' \<notin> set k) \<and> key \<noteq> '''' \<and>
    walk (JObj (root_doc (schemaobj n))) (key # keys) = Inl (KeyError missing) \<longrightarrow>
      get_reference n (JStr (''#'' @ concat (map ((#) CHR ''/'') (key # keys))))
        = Inl (RefNotPresent (''#'' @ concat (map ((#) CHR ''/'') (key # keys)))))"
proof (intro conjI impI)
  show "get_reference n (JStr '''') = Inl EmptyReference" by (rule get_reference_empty)
next
  assume "s \<noteq> '''' \<and> takeWhile (\<lambda>x. x \<noteq> CHR ''/'') s \<noteq> ''#''"
  then show "get_reference n (JStr s) = Inl (UnrecognizedRefFormat s)"
    by (simp add: get_reference_bad_lead)
next
  show "get_reference n (JStr ''#'') = Inr (JSONSchemaTraitlets (root n))"
    by (rule get_reference_hash)
next
  assume "takeWhile (\<lambda>x. x \<noteq> CHR ''/'') t = ''''"
  then show "get_reference n (JStr (''#/'' @ t)) = Inr (JSONSchemaTraitlets (root n))"
    by (rule get_reference_empty_second)
next
  assume a: "(\<forall>k\<in>set (key # keys). CHR ''/'' \<notin> set k) \<and> key \<noteq> '''' \<and>
    walk (JObj (root_doc (schemaobj n))) (key # keys) = Inr (JObj m)"
  then have "get_reference n (JStr (''#'' @ concat (map ((#) CHR ''/'') (key # keys)))) =
     (case walk (JObj (root_doc (schemaobj n))) (key # keys) of
        Inl (KeyError k) \<Rightarrow> Inl (RefNotPresent (''#'' @ concat (map ((#) CHR ''/'') (key # keys))))
      | Inl e \<Rightarrow> Inl e
      | Inr sch \<Rightarrow> initialize_child n sch (Some (last (key # keys))))"
    by (intro get_reference_path) simp_all
  with a show "get_reference n (JStr (''#'' @ concat (map ((#) CHR ''/'') (key # keys))))
        = Inr (child_of n m (Some (last (key # keys))))"
    by (simp add: initialize_child_eq del: walk.simps)
next
  assume a: "(\<forall>k\<in>set (key # keys). CHR ''/'' \<notin> set k) \<and> key \<noteq> '''' \<and>
    walk (JObj (root_doc (schemaobj n))) (key # keys) = Inl (KeyError missing)"
  then have "get_reference n (JStr (''#'' @ concat (map ((#) CHR ''/'') (key # keys)))) =
     (case walk (JObj (root_doc (schemaobj n))) (key # keys) of
        Inl (KeyError k) \<Rightarrow> Inl (RefNotPresent (''#'' @ concat (map ((#) CHR ''/'') (key # keys))))
      | Inl e \<Rightarrow> Inl e
      | Inr sch \<Rightarrow> initialize_child n sch (Some (last (key # keys))))"
    by (intro get_reference_path) simp_all
  with a show "get_reference n (JStr (''#'' @ concat (map ((#) CHR ''/'') (key # keys))))
        = Inl (RefNotPresent (''#'' @ concat (map ((#) CHR ''/'') (key # keys))))"
    by (simp del: walk.simps)
qed

theorem get_reference_forms_witness:
  "get_reference color_root (JStr ''notaref'') = Inl (UnrecognizedRefFormat ''notaref'') \<and>
   get_reference color_root (JStr ''#//x'') = Inr color_root \<and>
   get_reference color_root (JStr ''#/properties/color'')
     = Inr (child_of color_root [(''$ref'', JStr ''#/definitions/Color'')] (Some ''color'')) \<and>
   get_reference color_root (JStr ''#/definitions/Shape'')
     = Inl (RefNotPresent ''#/definitions/Shape'')"
proof -
  have r: "JSONSchemaTraitlets (root color_root) = color_root"
    by (simp add: color_root_def JSONSchemaTraitlets_def root_def obj_root_def)
  have h2: "''notaref'' \<noteq> '''' \<and> takeWhile (\<lambda>x. x \<noteq> CHR ''/'') ''notaref'' \<noteq> ''#''"
    by simp
  have h4: "takeWhile (\<lambda>x. x \<noteq> CHR ''/'') ''/x'' = ''''" by simp
  have h5: "(\<forall>k\<in>set [''properties'', ''color'']. CHR ''/'' \<notin> set k) \<and> ''properties'' \<noteq> '''' \<and>
      walk (JObj (root_doc (schemaobj color_root))) [''properties'', ''color'']
        = Inr (JObj [(''$ref'', JStr ''#/definitions/Color'')])"
    by (simp add: color_root_def color_doc_def JSONSchemaTraitlets_def)
  have h6: "(\<forall>k\<in>set [''definitions'', ''Shape'']. CHR ''/'' \<notin> set k) \<and> ''definitions'' \<noteq> '''' \<and>
      walk (JObj (root_doc (schemaobj color_root))) [''definitions'', ''Shape'']
        = Inl (KeyError ''Shape'')"
    by (simp add: color_root_def color_doc_def JSONSchemaTraitlets_def)
  from h2 get_reference_forms [of color_root "''notaref''"]
  have c2: "get_reference color_root (JStr ''notaref'') = Inl (UnrecognizedRefFormat ''notaref'')"
    by blast
  from h4 get_reference_forms [of color_root _ "''/x''"] r
  have c4: "get_reference color_root (JStr ''#//x'') = Inr color_root" by simp
  from h5 get_reference_forms [of color_root _ _ "''properties''" "[''color'']"
      "[(''$ref'', JStr ''#/definitions/Color'')]"]
  have c5: "get_reference color_root (JStr ''#/properties/color'')
     = Inr (child_of color_root [(''$ref'', JStr ''#/definitions/Color'')] (Some ''color''))"
    by simp
  from h6 get_reference_forms [of color_root _ _ "''definitions''" "[''Shape'']" _ "''Shape''"]
  have c6: "get_reference color_root (JStr ''#/definitions/Shape'')
     = Inl (RefNotPresent ''#/definitions/Shape'')"
    by simp
  from c2 c4 c5 c6 show ?thesis by blast
qed

section \<open>Attribute access\<close>

text \<open>
  Claim C7. Reading one of the recognized keywords \<open>title\<close>, \<open>description\<close>,
  \<open>properties\<close>, \<open>definitions\<close>, \<open>default\<close>, \<open>examples\<close>, \<open>type\<close>, \<open>required\<close>,
  \<open>additionalProperties\<close> through \<open>__getattr__\<close> gives the value of the keyword when the
  mapping has it, and otherwise the default of the table (\<open>type\<close>: \<open>"object"\<close>, \<open>required\<close>:
  the empty sequence, \<open>additionalProperties\<close>: true, the empty string for \<open>title\<close> and
  \<open>description\<close>, the empty mapping for \<open>properties\<close>, \<open>definitions\<close> and \<open>examples\<close>,
  \<open>None\<close> for \<open>default\<close>); any other attribute that reaches \<open>__getattr__\<close> fails with an
  \<open>AttributeError\<close> naming it.
\<close>

theorem getattr_recognized:
  "(attr \<in> set [''title'', ''description'', ''properties'', ''definitions'', ''default'',
                 ''examples'', ''type'', ''required'', ''additionalProperties''] \<and>
    map_of (schema n) attr = Some v \<longrightarrow> getattr n attr = Inr v) \<and>
   (map_of (schema n) ''title'' = None \<longrightarrow> getattr n ''title'' = Inr (JStr '''')) \<and>
   (map_of (schema n) ''description'' = None \<longrightarrow> getattr n ''description'' = Inr (JStr '''')) \<and>
   (map_of (schema n) ''properties'' = None \<longrightarrow> getattr n ''properties'' = Inr (JObj [])) \<and>
   (map_of (schema n) ''definitions'' = None \<longrightarrow> getattr n ''definitions'' = Inr (JObj [])) \<and>
   (map_of (schema n) ''default'' = None \<longrightarrow> getattr n ''default'' = Inr JNull) \<and>
   (map_of (schema n) ''examples'' = None \<longrightarrow> getattr n ''examples'' = Inr (JObj [])) \<and>
   (map_of (schema n) ''type'' = None \<longrightarrow> getattr n ''type'' = Inr (JStr ''object'')) \<and>
   (map_of (schema n) ''required'' = None \<longrightarrow> getattr n ''required'' = Inr (JArr [])) \<and>
   (map_of (schema n) ''additionalProperties'' = None \<longrightarrow>
      getattr n ''additionalProperties'' = Inr (JBool True)) \<and>
   (attr \<notin> set [''title'', ''description'', ''properties'', ''definitions'', ''default'',
                 ''examples'', ''type'', ''required'', ''additionalProperties''] \<longrightarrow>
      getattr n attr = Inl (AttributeError ''JSONSchemaTraitlets'' attr))"
proof -
  have known: "attr \<in> set [''title'', ''description'', ''properties'', ''definitions'', ''default'',
                 ''examples'', ''type'', ''required'', ''additionalProperties''] \<longleftrightarrow>
      map_of attr_defaults attr \<noteq> None"
    by (simp add: attr_defaults_def)
  have present: "map_of attr_defaults attr \<noteq> None \<Longrightarrow> map_of (schema n) attr = Some v \<Longrightarrow>
      getattr n attr = Inr v"
    by (auto simp: getattr_def)
  have unknown: "map_of attr_defaults attr = None \<Longrightarrow>
      getattr n attr = Inl (AttributeError ''JSONSchemaTraitlets'' attr)"
    by (simp add: getattr_def)
  have absent: "\<And>a d. map_of attr_defaults a = Some d \<Longrightarrow> map_of (schema n) a = None \<Longrightarrow>
      getattr n a = Inr d"
    by (simp add: getattr_def)
  show ?thesis
    using known present unknown
    by (auto intro!: absent simp: attr_defaults_def)
qed

theorem getattr_recognized_witness:
  "getattr color_root ''type'' = Inr (JStr ''object'') \<and>
   getattr (child_of color_root [(''type'', JStr ''string'')] None) ''type'' = Inr (JStr ''string'') \<and>
   getattr (child_of color_root [] None) ''type'' = Inr (JStr ''object'') \<and>
   getattr color_root ''required'' = Inr (JArr []) \<and>
   getattr color_root ''additionalProperties'' = Inr (JBool True) \<and>
   getattr color_root ''title'' = Inr (JStr '''') \<and>
   getattr color_root ''description'' = Inr (JStr '''') \<and>
   getattr (child_of color_root [] None) ''properties'' = Inr (JObj []) \<and>
   getattr (child_of color_root [] None) ''definitions'' = Inr (JObj []) \<and>
   getattr color_root ''default'' = Inr JNull \<and>
   getattr color_root ''examples'' = Inr (JObj []) \<and>
   getattr color_root ''enum'' = Inl (AttributeError ''JSONSchemaTraitlets'' ''enum'')"
proof -
  let ?str = "child_of color_root [(''type'', JStr ''string'')] None"
  let ?empty = "child_of color_root [] None"
  have p1: "''type'' \<in> set [''title'', ''description'', ''properties'', ''definitions'', ''default'',
                 ''examples'', ''type'', ''required'', ''additionalProperties''] \<and>
      map_of (schema color_root) ''type'' = Some (JStr ''object'')"
    by (simp add: node_eval)
  have p2: "''type'' \<in> set [''title'', ''description'', ''properties'', ''definitions'', ''default'',
                 ''examples'', ''type'', ''required'', ''additionalProperties''] \<and>
      map_of (schema ?str) ''type'' = Some (JStr ''string'')"
    by (simp add: node_eval)
  have a: "map_of (schema color_root) ''title'' = None"
    "map_of (schema color_root) ''description'' = None"
    "map_of (schema color_root) ''default'' = None"
    "map_of (schema color_root) ''examples'' = None"
    "map_of (schema color_root) ''required'' = None"
    "map_of (schema color_root) ''additionalProperties'' = None"
    by (simp_all add: node_eval)
  have b: "map_of (schema ?empty) ''properties'' = None"
    "map_of (schema ?empty) ''definitions'' = None"
    "map_of (schema ?empty) ''type'' = None"
    by (simp_all add: node_eval)
  have u: "''enum'' \<notin> set [''title'', ''description'', ''properties'', ''definitions'', ''default'',
                 ''examples'', ''type'', ''required'', ''additionalProperties'']"
    by simp
  from p1 getattr_recognized [of "''type''" color_root "JStr ''object''"]
  have c1: "getattr color_root ''type'' = Inr (JStr ''object'')" by blast
  from p2 getattr_recognized [of "''type''" ?str "JStr ''string''"]
  have c2: "getattr ?str ''type'' = Inr (JStr ''string'')" by blast
  from a getattr_recognized [of "''type''" color_root "JStr ''object''"]
  have c3: "getattr color_root ''required'' = Inr (JArr []) \<and>
     getattr color_root ''additionalProperties'' = Inr (JBool True) \<and>
     getattr color_root ''title'' = Inr (JStr '''') \<and>
     getattr color_root ''description'' = Inr (JStr '''') \<and>
     getattr color_root ''default'' = Inr JNull \<and>
     getattr color_root ''examples'' = Inr (JObj [])"
    by blast
  from b getattr_recognized [of "''type''" ?empty "JStr ''object''"]
  have c4: "getattr ?empty ''type'' = Inr (JStr ''object'') \<and>
     getattr ?empty ''properties'' = Inr (JObj []) \<and>
     getattr ?empty ''definitions'' = Inr (JObj [])"
    by blast
  from u getattr_recognized [of "''enum''" color_root]
  have c5: "getattr color_root ''enum'' = Inl (AttributeError ''JSONSchemaTraitlets'' ''enum'')"
    by blast
  from c1 c2 c3 c4 c5 show ?thesis by blast
qed

section \<open>Extractor dispatch is first match, memoized per node\<close>

lemma first_match_hit:
  "\<forall>x\<in>set pre. chk x = Inr False \<Longrightarrow> chk e = Inr True \<Longrightarrow>
   first_match chk (pre @ e # post) = (Inr (Some e), pre @ [e])"
  by (induction pre) auto

lemma first_match_miss:
  "\<forall>x\<in>set es. chk x = Inr False \<Longrightarrow> first_match chk es = (Inr None, es)"
  by (induction es) auto

lemma first_match_tested: "es \<noteq> [] \<Longrightarrow> snd (first_match chk es) \<noteq> []"
  by (cases es) (auto split: sum.splits prod.splits)

lemma trait_extractor_memo:
  assumes "trait_extractor tx n = (Inr e, n', tested)"
  shows "trait_extractor tx n' = (Inr e, n', [])"
proof (cases "cached_trait_extractor n")
  case None
  with assms have "n' = n\<lparr>cached_trait_extractor := Some e\<rparr>"
    by (auto simp: trait_extractor_def split: prod.splits sum.splits option.splits)
  then show ?thesis by (simp add: trait_extractor_def)
next
  case (Some e0)
  with assms have "e0 = e" "n' = n" by (simp_all add: trait_extractor_def)
  with Some show ?thesis by (simp add: trait_extractor_def)
qed

text \<open>
  Claim C6. On a node whose memo is empty, the dispatch answers the first class of the
  fixed list whose test passes (the tests of the classes before it having failed), stores
  it in the memo, and has tested the classes up to it; when every test fails it fails with
  the unrecognized-schema error carrying the keys of the node's mapping, having tested the
  whole list. Once a query has answered a class, a further query on the resulting node
  answers the same class and tests nothing. A node constructed anew for the same schema
  object has an empty memo and tests again, from the first class on.
\<close>

theorem trait_extractor_dispatch:
  "(cached_trait_extractor n = None \<and> trait_extractors = pre @ e # post \<and>
    (\<forall>x\<in>set pre. check tx x n = Inr False) \<and> check tx e n = Inr True \<longrightarrow>
      trait_extractor tx n = (Inr e, n\<lparr>cached_trait_extractor := Some e\<rparr>, pre @ [e])) \<and>
   (cached_trait_extractor n = None \<and> (\<forall>x\<in>set trait_extractors. check tx x n = Inr False) \<longrightarrow>
      trait_extractor tx n =
        (Inl (NoRecognizedTraitCode (map fst (schema n))), n, trait_extractors)) \<and>
   (trait_extractor tx n = (Inr e, n', tested) \<longrightarrow> trait_extractor tx n' = (Inr e, n', [])) \<and>
   cached_trait_extractor (JSONSchemaTraitlets (schemaobj n)) = None \<and>
   (\<exists>tested'. snd (snd (trait_extractor tx (JSONSchemaTraitlets (schemaobj n))))
      = AnyOfObject # tested')"
proof (intro conjI impI)
  assume a: "cached_trait_extractor n = None \<and> trait_extractors = pre @ e # post \<and>
    (\<forall>x\<in>set pre. check tx x n = Inr False) \<and> check tx e n = Inr True"
  then have "first_match (\<lambda>x. check tx x n) (pre @ e # post) = (Inr (Some e), pre @ [e])"
    by (intro first_match_hit) simp_all
  with a show "trait_extractor tx n = (Inr e, n\<lparr>cached_trait_extractor := Some e\<rparr>, pre @ [e])"
    by (simp add: trait_extractor_def)
next
  assume a: "cached_trait_extractor n = None \<and> (\<forall>x\<in>set trait_extractors. check tx x n = Inr False)"
  then have "first_match (\<lambda>x. check tx x n) trait_extractors = (Inr None, trait_extractors)"
    by (intro first_match_miss) simp
  with a show "trait_extractor tx n =
      (Inl (NoRecognizedTraitCode (map fst (schema n))), n, trait_extractors)"
    by (simp add: trait_extractor_def)
next
  assume "trait_extractor tx n = (Inr e, n', tested)"
  then show "trait_extractor tx n' = (Inr e, n', [])" by (rule trait_extractor_memo)
next
  show "cached_trait_extractor (JSONSchemaTraitlets (schemaobj n)) = None"
    by (simp add: JSONSchemaTraitlets_def)
next
  let ?f = "JSONSchemaTraitlets (schemaobj n)"
  have "cached_trait_extractor ?f = None" by (simp add: JSONSchemaTraitlets_def)
  then have "snd (snd (trait_extractor tx ?f))
      = snd (first_match (\<lambda>x. check tx x ?f) trait_extractors)"
    by (auto simp: trait_extractor_def split: prod.splits sum.splits option.splits)
  moreover have "\<exists>tested'. snd (first_match (\<lambda>x. check tx x ?f) trait_extractors)
      = AnyOfObject # tested'"
    by (auto simp: trait_extractors_def split: sum.splits prod.splits)
  ultimately show "\<exists>tested'. snd (snd (trait_extractor tx ?f)) = AnyOfObject # tested'"
    by simp
qed

theorem trait_extractor_dispatch_witness:
  "trait_extractor sample_tx (child_of color_root [(''enum'', JArr [JStr ''red''])] None)
     = (Inr Enum,
        (child_of color_root [(''enum'', JArr [JStr ''red''])] None)
          \<lparr>cached_trait_extractor := Some Enum\<rparr>,
        [AnyOfObject, OneOfObject, AllOfObject, RefObject, RefTrait, Not_extractor, AnyOf,
         AllOf, OneOf, NamedEnum, Enum]) \<and>
   trait_extractor sample_tx
     ((child_of color_root [(''enum'', JArr [JStr ''red''])] None)
        \<lparr>cached_trait_extractor := Some Enum\<rparr>)
     = (Inr Enum,
        (child_of color_root [(''enum'', JArr [JStr ''red''])] None)
          \<lparr>cached_trait_extractor := Some Enum\<rparr>,
        []) \<and>
   trait_extractor sample_tx (child_of color_root [(''minimum'', JNum 0)] None)
     = (Inl (NoRecognizedTraitCode [''minimum'']),
        child_of color_root [(''minimum'', JNum 0)] None, trait_extractors)"
proof -
  let ?n = "child_of color_root [(''enum'', JArr [JStr ''red''])] None"
  let ?pre = "[AnyOfObject, OneOfObject, AllOfObject, RefObject, RefTrait, Not_extractor, AnyOf,
         AllOf, OneOf, NamedEnum]"
  let ?post = "[SimpleType, CompoundType, Array, EmptySchema, Object]"
  let ?u = "child_of color_root [(''minimum'', JNum 0)] None"
  have h1: "cached_trait_extractor ?n = None \<and> trait_extractors = ?pre @ Enum # ?post \<and>
      (\<forall>x\<in>set ?pre. check sample_tx x ?n = Inr False) \<and> check sample_tx Enum ?n = Inr True"
    by (simp add: trait_extractors_def sample_tx_def node_eval)
  have h2: "cached_trait_extractor ?u = None \<and>
      (\<forall>x\<in>set trait_extractors. check sample_tx x ?u = Inr False)"
    by (simp add: trait_extractors_def sample_tx_def node_eval)
  have s: "map fst (schema ?u) = [''minimum'']" by (simp add: node_eval)
  from h1 trait_extractor_dispatch [of ?n ?pre Enum ?post sample_tx]
  have c1: "trait_extractor sample_tx ?n
      = (Inr Enum, ?n\<lparr>cached_trait_extractor := Some Enum\<rparr>, ?pre @ [Enum])"
    by blast
  from c1 trait_extractor_dispatch [of ?n ?pre Enum ?post sample_tx
      "?n\<lparr>cached_trait_extractor := Some Enum\<rparr>" "?pre @ [Enum]"]
  have c2: "trait_extractor sample_tx (?n\<lparr>cached_trait_extractor := Some Enum\<rparr>)
      = (Inr Enum, ?n\<lparr>cached_trait_extractor := Some Enum\<rparr>, [])"
    by blast
  from h2 trait_extractor_dispatch [of ?u _ _ _ sample_tx]
  have c3: "trait_extractor sample_tx ?u
      = (Inl (NoRecognizedTraitCode (map fst (schema ?u))), ?u, trait_extractors)"
    by blast
  from c1 c2 c3 s show ?thesis by simp
qed

section \<open>The imports of an object definition\<close>

lemma extend_all_set:
  "extend_all f ts = Inr p \<Longrightarrow>
   (\<forall>t\<in>set ts. \<exists>ys. f t = Inr ys) \<and>
   set p = (\<Union>t\<in>set ts. {x. \<exists>ys. f t = Inr ys \<and> x \<in> set ys})"
proof (induction ts arbitrary: p)
  case Nil
  then show ?case by simp
next
  case (Cons t ts)
  from Cons.prems obtain xs ys where xs: "f t = Inr xs" and ys: "extend_all f ts = Inr ys"
    and p: "p = xs @ ys"
    by (auto split: sum.splits)
  from Cons.IH [OF ys] xs p show ?case by auto
qed

text \<open>
  Claim C9. Whenever \<open>object_imports\<close> returns a list, the list has no duplicates and is
  in descending lexical order, and its elements are exactly the basic imports, the trait
  imports of the child that wraps \<open>additionalProperties\<close> when that is a mapping, the
  import statement of the resolved reference target when the node is a reference, and
  the trait imports of every wrapped property.
\<close>

theorem object_imports_distinct_sorted:
  assumes "object_imports tx ut n = Inr xs"
  shows "distinct xs \<and> sorted (rev xs) \<and>
    (\<exists>a r props.
       set xs = set basic_imports \<union> set a \<union> set r
          \<union> (\<Union>c\<in>snd ` set props. {x. \<exists>ys. trait_imports tx c = Inr ys \<and> x \<in> set ys}) \<and>
       (case getattr n ''additionalProperties'' of
          Inr (JObj m) \<Rightarrow> trait_imports tx (child_of n m None) = Inr a
        | _ \<Rightarrow> a = []) \<and>
       (if is_reference n
        then \<exists>target stmt. wrapped_ref n = Inr target \<and>
               fst (import_statement tx target) = Inr stmt \<and> r = [stmt]
        else r = []) \<and>
       wrapped_properties ut n = Inr props)"
proof -
  from assms obtain a r p where a: "additional_imports tx n = Inr a"
    and r: "reference_imports tx n = Inr r" and p: "property_imports tx ut n = Inr p"
    and xs: "xs = rev (sort (remdups (basic_imports @ a @ r @ p)))"
    by (auto simp: object_imports_def split: sum.splits)
  from p obtain props where props: "wrapped_properties ut n = Inr props"
    and ext: "extend_all (trait_imports tx) (map snd props) = Inr p"
    by (auto simp: property_imports_def split: sum.splits)
  from extend_all_set [OF ext]
  have sp: "set p = (\<Union>c\<in>snd ` set props. {x. \<exists>ys. trait_imports tx c = Inr ys \<and> x \<in> set ys})"
    by simp
  from a have ca: "(case getattr n ''additionalProperties'' of
          Inr (JObj m) \<Rightarrow> trait_imports tx (child_of n m None) = Inr a
        | _ \<Rightarrow> a = [])"
    by (auto simp: additional_imports_def initialize_child_eq split: sum.splits json.splits)
  from r have cr: "(if is_reference n
        then \<exists>target stmt. wrapped_ref n = Inr target \<and>
               fst (import_statement tx target) = Inr stmt \<and> r = [stmt]
        else r = [])"
    by (auto simp: reference_imports_def split: sum.splits if_splits)
  have d: "distinct xs" by (simp add: xs)
  have s: "sorted (rev xs)" by (simp add: xs)
  have e: "set xs = set basic_imports \<union> set a \<union> set r
      \<union> (\<Union>c\<in>snd ` set props. {x. \<exists>ys. trait_imports tx c = Inr ys \<and> x \<in> set ys})"
    unfolding sp [symmetric] by (auto simp: xs)
  from d s e ca cr props show ?thesis by blast
qed

theorem object_imports_distinct_sorted_witness:
  "object_imports sample_tx sample_utils color_root
     = Inr [''import traitlets as T'', ''from .color import Color'',
            ''from . import jstraitlets as jst''] \<and>
   distinct [''import traitlets as T'', ''from .color import Color'',
            ''from . import jstraitlets as jst''] \<and>
   sorted (rev [''import traitlets as T'', ''from .color import Color'',
            ''from . import jstraitlets as jst''])"
proof -
  have tm: "trait_imports sample_tx (child_of color_root [(''$ref'', JStr ''#/definitions/Color'')] None)
      = Inr [''import traitlets as T'', ''from .color import Color'']"
    by (simp add: trait_imports_def trait_extractors_def sample_tx_def node_eval)
  have wp: "wrapped_properties sample_utils color_root
      = Inr [(''color'', child_of color_root [(''$ref'', JStr ''#/definitions/Color'')] None)]"
    by (simp add: wrapped_properties_def trait_map_def properties_def sample_utils_def
        OrderedDict_def initialize_child_eq getattr_def attr_defaults_def schema_def
        color_root_def color_doc_def JSONSchemaTraitlets_def)
  have a: "additional_imports sample_tx color_root = Inr []"
    by (simp add: additional_imports_def getattr_def attr_defaults_def schema_def
        color_root_def color_doc_def JSONSchemaTraitlets_def)
  have r: "reference_imports sample_tx color_root = Inr []"
    by (simp add: reference_imports_def is_reference_def schema_def
        color_root_def color_doc_def JSONSchemaTraitlets_def)
  have p: "property_imports sample_tx sample_utils color_root
      = Inr [''import traitlets as T'', ''from .color import Color'']"
    by (simp add: property_imports_def wp tm)
  have v: "object_imports sample_tx sample_utils color_root
     = Inr [''import traitlets as T'', ''from .color import Color'',
            ''from . import jstraitlets as jst'']"
    by (simp add: object_imports_def a r p basic_imports_def)
  from object_imports_distinct_sorted [OF v] v show ?thesis by blast
qed

section \<open>Wrapped definitions\<close>

lemma char_of_nat_bits:
  "char_of (n::nat) = Char (odd n) (odd (n div 2)) (odd (n div 4)) (odd (n div 8))
     (odd (n div 16)) (odd (n div 32)) (odd (n div 64)) (odd (n div 128))"
  by (simp add: char_of_def bit_iff_odd)

lemmas defs_eval =
  wrapped_definitions_def all_definitions_def obj_definitions_def OrderedDict_def
  initialize_child_eq ascii_lower_def lower_char_def char_of_nat_bits JSONSchemaTraitlets_def
  child_of_def

subsection \<open>Assigning keys of an ordered dict\<close>

lemma od_set_keys:
  "map fst (od_set k v d) = (if k \<in> set (map fst d) then map fst d else map fst d @ [k])"
  by (induction d) auto

lemma od_set_map_of: "map_of (od_set k v d) = (map_of d)(k \<mapsto> v)"
  by (induction d) (auto simp: fun_eq_iff)

lemma od_set_fresh: "k \<notin> set (map fst d) \<Longrightarrow> od_set k v d = d @ [(k, v)]"
  by (induction d) auto

lemma od_build_ok:
  "od_build acc (map (\<lambda>p. (fst p, Inr (snd p))) ps) = Inr (od_assign_all acc ps)"
  by (induction ps arbitrary: acc) (simp_all add: od_assign_all_def)

lemma od_assign_all_Cons:
  "od_assign_all acc (p # ps) = od_assign_all (od_set (fst p) (snd p) acc) ps"
  by (simp add: od_assign_all_def)

lemma od_assign_all_Nil: "od_assign_all acc [] = acc"
  by (simp add: od_assign_all_def)

lemma od_assign_all_distinct:
  "distinct (map fst acc) \<Longrightarrow> distinct (map fst (od_assign_all acc ps))"
proof (induction ps arbitrary: acc)
  case Nil
  then show ?case by (simp add: od_assign_all_Nil)
next
  case (Cons p ps)
  from Cons.prems have "distinct (map fst (od_set (fst p) (snd p) acc))"
    by (simp add: od_set_keys)
  then show ?case unfolding od_assign_all_Cons by (rule Cons.IH)
qed

lemma od_assign_all_keys:
  "set (map fst (od_assign_all acc ps)) = set (map fst acc) \<union> set (map fst ps)"
proof (induction ps arbitrary: acc)
  case Nil
  then show ?case by (simp add: od_assign_all_Nil)
next
  case (Cons p ps)
  have "set (map fst (od_set (fst p) (snd p) acc)) = insert (fst p) (set (map fst acc))"
    by (auto simp: od_set_keys)
  with Cons.IH [of "od_set (fst p) (snd p) acc"] show ?case
    unfolding od_assign_all_Cons by auto
qed

lemma od_assign_all_map_of:
  "map_of (od_assign_all acc ps) k =
     (case map_of (rev ps) k of Some v \<Rightarrow> Some v | None \<Rightarrow> map_of acc k)"
proof (induction ps arbitrary: acc)
  case Nil
  then show ?case by (simp add: od_assign_all_Nil)
next
  case (Cons p ps)
  show ?case
    unfolding od_assign_all_Cons Cons.IH
    by (cases p) (auto simp: od_set_map_of map_add_def split: option.splits)
qed

lemma od_assign_all_fresh:
  "distinct (map fst (acc @ ps)) \<Longrightarrow> od_assign_all acc ps = acc @ ps"
proof (induction ps arbitrary: acc)
  case Nil
  then show ?case by (simp add: od_assign_all_Nil)
next
  case (Cons p ps)
  from Cons.prems have f: "fst p \<notin> set (map fst acc)" by auto
  from Cons.prems have "distinct (map fst ((acc @ [p]) @ ps))" by simp
  then have "od_assign_all (acc @ [p]) ps = (acc @ [p]) @ ps" by (rule Cons.IH)
  with f show ?case unfolding od_assign_all_Cons by (simp add: od_set_fresh)
qed

lemma one_entry_per_key:
  "distinct (map fst od) \<Longrightarrow> k \<in> set (map fst od) \<Longrightarrow>
   length (filter (\<lambda>e. fst e = k) od) = 1"
proof (induction od)
  case Nil
  then show ?case by simp
next
  case (Cons e od)
  show ?case
  proof (cases "fst e = k")
    case True
    from Cons.prems(1) have "fst e \<notin> fst ` set od" by simp
    then have "\<And>e'. e' \<in> set od \<Longrightarrow> fst e' \<noteq> fst e" by (metis imageI)
    with True have "filter (\<lambda>e. fst e = k) od = []"
      by (simp add: filter_empty_conv)
    with True show ?thesis by simp
  next
    case False
    with Cons show ?thesis by auto
  qed
qed

subsection \<open>Sorting the definitions\<close>

lemma insort_key_as_schema:
  "insort_key fst (as_schema x) (map as_schema ys) = map as_schema (insort_key fst x ys)"
  by (induction ys) (simp_all add: as_schema_def)

lemma sort_key_as_schema:
  "sort_key fst (map as_schema xs) = map as_schema (sort_key fst xs)"
  by (induction xs) (simp_all add: insort_key_as_schema)

lemma wrapped_definitions_assign:
  assumes "obj_definitions (schemaobj n) = JObj (map as_schema mdefs)"
  shows "wrapped_definitions lw n
     = Inr (od_assign_all [] (map (wrap_definition lw n) (sort_key fst mdefs)))"
proof -
  let ?sorted = "sort_key fst mdefs"
  have all: "all_definitions n = Inr (map as_schema ?sorted)"
    using assms by (simp add: all_definitions_def sort_key_as_schema)
  have "sorted (map fst ?sorted)" by (rule sorted_sort_key)
  then have again: "sort_key fst ?sorted = ?sorted" by (rule sort_key_id_if_sorted)
  have items: "map (\<lambda>(nm, sch). (lw nm, initialize_child n sch (Some nm))) (map as_schema ?sorted)
      = map (\<lambda>p. (fst p, Inr (snd p))) (map (wrap_definition lw n) ?sorted)"
    by (simp add: as_schema_def wrap_definition_def initialize_child_eq)
  show ?thesis
    unfolding wrapped_definitions_def all OrderedDict_def
    by (simp only: sum.case sort_key_as_schema again items od_build_ok)
qed

lemma wrap_keys: "map fst (map (wrap_definition lw n) xs) = map (\<lambda>d. lw (fst d)) xs"
  by (simp add: wrap_definition_def)

lemma distinct_lower_sorted:
  "distinct (map (\<lambda>d. lw (fst d)) xs) \<Longrightarrow>
   distinct (map (\<lambda>d. lw (fst d)) (sort_key fst xs))"
  by (simp add: distinct_map)

lemma classname_named:
  "nm \<noteq> [] \<Longrightarrow> classname ut (Suc k) (child_of n m (Some nm)) = Some (Inr (regularize_name ut nm))"
  by simp

text \<open>
  Claim C8, as stated, fails. The names of the two documents are ASCII, where
  \<open>str.lower\<close> is \<open>ascii_lower\<close>. With the definitions \<open>a\<close>, \<open>b\<close> and \<open>B\<close>, the names \<open>B\<close>
  and \<open>b\<close> share the key \<open>b\<close>: the enumeration has two entries, the nodes named \<open>b\<close> and
  \<open>a\<close> in this order, which is not the lexical order of the names, and the entry keyed by
  the normalized \<open>B\<close> is the node of \<open>b\<close>. With a definition under the empty name, the
  wrapped node has no class name: \<open>if self.name\<close> fails for the empty string.
\<close>

theorem wrapped_definitions_counterexample:
  "wrapped_definitions ascii_lower case_root
     = Inr [(''b'', child_of case_root [] (Some ''b'')),
            (''a'', child_of case_root [] (Some ''a''))] \<and>
   \<not> sorted [''b'', ''a''] \<and>
   ascii_lower ''B'' = ''b'' \<and>
   classname sample_utils (Suc 0) (child_of case_root [] (Some ''b''))
     \<noteq> Some (Inr (regularize_name sample_utils ''B'')) \<and>
   wrapped_definitions ascii_lower unnamed_root = Inr [('''', child_of unnamed_root [] (Some ''''))] \<and>
   classname sample_utils (Suc 0) (child_of unnamed_root [] (Some ''''))
     = Some (Inl (NotImplementedError []))"
  by (simp add: case_root_def unnamed_root_def defs_eval sample_utils_def name_def
      is_root_def is_reference_def schema_def obj_root_def property_fallback_def)

text \<open>
  Claim C8, amended. When the definitions are mappings whose names stay pairwise distinct
  after lower-casing, \<open>wrapped_definitions()\<close> has, in the lexical order of the original
  names, one entry per definition, keyed by the lower-cased name; the entry keyed by the
  lower-cased \<open>D\<close> wraps the definition \<open>D\<close> under the name \<open>D\<close>, and when \<open>D\<close> is not empty
  its class name is the regularized \<open>D\<close>. This holds for every function \<open>lw\<close> in the place
  of \<open>str.lower\<close>, so for names of any alphabet.
\<close>

theorem wrapped_definitions_naming:
  assumes "obj_definitions (schemaobj n) = JObj (map as_schema mdefs)"
    and "distinct (map (\<lambda>d. lw (fst d)) mdefs)"
  shows "wrapped_definitions lw n = Inr (map (wrap_definition lw n) (sort_key fst mdefs)) \<and>
    sorted (map fst (sort_key fst mdefs)) \<and>
    (\<forall>d\<in>set mdefs.
       map_of (map (wrap_definition lw n) (sort_key fst mdefs)) (lw (fst d))
         = Some (child_of n (snd d) (Some (fst d))) \<and>
       (fst d \<noteq> [] \<longrightarrow>
          classname ut (Suc k) (child_of n (snd d) (Some (fst d)))
            = Some (Inr (regularize_name ut (fst d)))))"
proof -
  let ?od = "map (wrap_definition lw n) (sort_key fst mdefs)"
  have dk: "distinct (map fst ?od)"
    unfolding wrap_keys using assms(2) by (rule distinct_lower_sorted)
  then have "od_assign_all [] ?od = ?od"
    using od_assign_all_fresh [of "[]" ?od] by simp
  with wrapped_definitions_assign [OF assms(1)]
  have w: "wrapped_definitions lw n = Inr ?od" by simp
  have s: "sorted (map fst (sort_key fst mdefs))" by (rule sorted_sort_key)
  have e: "map_of ?od (lw (fst d)) = Some (child_of n (snd d) (Some (fst d)))"
    if "d \<in> set mdefs" for d
  proof -
    from that have "wrap_definition lw n d \<in> set ?od" by simp
    then have "(lw (fst d), child_of n (snd d) (Some (fst d))) \<in> set ?od"
      by (simp add: wrap_definition_def)
    with dk show ?thesis by (rule map_of_is_SomeI)
  qed
  from w s e show ?thesis by (simp add: classname_named del: classname.simps)
qed

theorem wrapped_definitions_naming_witness:
  "wrapped_definitions ascii_lower color_root
     = Inr [(''color'', child_of color_root [(''enum'', JArr [JStr ''red'', JStr ''green''])]
                          (Some ''Color''))] \<and>
   classname sample_utils (Suc 0)
     (child_of color_root [(''enum'', JArr [JStr ''red'', JStr ''green''])] (Some ''Color''))
     = Some (Inr ''Color'')"
proof -
  let ?mdefs = "[(''Color'', [(''enum'', JArr [JStr ''red'', JStr ''green''])])]"
  have h1: "obj_definitions (schemaobj color_root) = JObj (map as_schema ?mdefs)"
    by (simp add: obj_definitions_def as_schema_def color_root_def color_doc_def
        JSONSchemaTraitlets_def)
  have h2: "distinct (map (\<lambda>d. ascii_lower (fst d)) ?mdefs)" by simp
  have l: "ascii_lower ''Color'' = ''color''"
    by (simp add: ascii_lower_def lower_char_def char_of_nat_bits)
  from wrapped_definitions_naming [OF h1 h2, where ut = sample_utils and k = 0] l show ?thesis
    by (simp add: wrap_definition_def sample_utils_def del: classname.simps)
qed

subsection \<open>Names that collide\<close>

lemma map_of_rev_sorted:
  "sorted (map fst xs) \<Longrightarrow> map_of (rev (map (wrap_definition lw n) xs)) k = Some c \<Longrightarrow>
   \<exists>d\<in>set xs. lw (fst d) = k \<and> c = child_of n (snd d) (Some (fst d)) \<and>
     (\<forall>d'\<in>set xs. lw (fst d') = k \<longrightarrow> fst d' \<le> fst d)"
proof (induction xs rule: rev_induct)
  case Nil
  then show ?case by simp
next
  case (snoc x xs)
  from snoc.prems(1) have sx: "sorted (map fst xs)" and le: "\<forall>d'\<in>set xs. fst d' \<le> fst x"
    by (auto simp: sorted_append)
  from snoc.prems(2)
  have look: "(if lw (fst x) = k then Some (child_of n (snd x) (Some (fst x)))
      else map_of (rev (map (wrap_definition lw n) xs)) k) = Some c"
    by (auto simp: wrap_definition_def [of lw n x] split: if_splits)
  show ?case
  proof (cases "lw (fst x) = k")
    case True
    with look have "c = child_of n (snd x) (Some (fst x))" by simp
    with True le show ?thesis by auto
  next
    case False
    with look have "map_of (rev (map (wrap_definition lw n) xs)) k = Some c" by simp
    from snoc.IH [OF sx this] False show ?thesis by auto
  qed
qed

text \<open>
  Claim C10. When two distinct definition names have the same lower-cased form,
  \<open>wrapped_definitions()\<close> has exactly one entry under that key; it wraps the definition
  whose original name is the greatest among those with this lower-cased form, and there
  are fewer entries than definitions. This holds for every function \<open>lw\<close> in the place of
  \<open>str.lower\<close>, so for names of any alphabet.
\<close>

theorem wrapped_definitions_collision:
  assumes "obj_definitions (schemaobj n) = JObj (map as_schema mdefs)"
    and "distinct (map fst mdefs)"
    and "d1 \<in> set mdefs" and "d2 \<in> set mdefs"
    and "fst d1 \<noteq> fst d2" and "lw (fst d1) = lw (fst d2)"
  shows "\<exists>od. wrapped_definitions lw n = Inr od \<and>
    length (filter (\<lambda>e. fst e = lw (fst d1)) od) = 1 \<and>
    length od < length mdefs \<and>
    (\<exists>dm\<in>set mdefs. lw (fst dm) = lw (fst d1) \<and>
       (\<forall>d\<in>set mdefs. lw (fst d) = lw (fst d1) \<longrightarrow> fst d \<le> fst dm) \<and>
       map_of od (lw (fst d1)) = Some (child_of n (snd dm) (Some (fst dm))))"
proof -
  let ?sorted = "sort_key fst mdefs"
  let ?ps = "map (wrap_definition lw n) ?sorted"
  let ?od = "od_assign_all [] ?ps"
  let ?k = "lw (fst d1)"
  have w: "wrapped_definitions lw n = Inr ?od"
    using assms(1) by (rule wrapped_definitions_assign)
  have dk: "distinct (map fst ?od)" by (rule od_assign_all_distinct) simp
  have keys: "set (map fst ?od) = lw ` fst ` set mdefs"
    unfolding od_assign_all_keys wrap_keys by (simp add: image_image)
  from assms(3) have kin: "?k \<in> set (map fst ?od)" unfolding keys by blast
  from dk kin have one: "length (filter (\<lambda>e. fst e = ?k) ?od) = 1"
    by (rule one_entry_per_key)
  have "length ?od = card (set (map fst ?od))"
    using dk by (simp add: distinct_card del: set_map)
  also have "\<dots> = card (lw ` fst ` set mdefs)" by (simp only: keys)
  also have "\<dots> < card (fst ` set mdefs)"
  proof -
    have ni: "\<not> inj_on lw (fst ` set mdefs)"
      using assms(3-6) by (auto simp: inj_on_def)
    have "card (lw ` fst ` set mdefs) \<le> card (fst ` set mdefs)"
      by (rule card_image_le) simp
    moreover have "card (lw ` fst ` set mdefs) \<noteq> card (fst ` set mdefs)"
      using ni eq_card_imp_inj_on [of "fst ` set mdefs" lw] by auto
    ultimately show ?thesis by simp
  qed
  also have "card (fst ` set mdefs) = length mdefs"
    using assms(2) distinct_card [of "map fst mdefs"] by simp
  finally have fewer: "length ?od < length mdefs" .
  from kin have "map_of ?od ?k \<noteq> None" by (simp add: map_of_eq_None_iff)
  then obtain c where c: "map_of ?od ?k = Some c" by auto
  then have "map_of (rev ?ps) ?k = Some c"
    by (auto simp: od_assign_all_map_of split: option.splits)
  from map_of_rev_sorted [OF sorted_sort_key this] c
  have "\<exists>dm\<in>set mdefs. lw (fst dm) = ?k \<and>
       (\<forall>d\<in>set mdefs. lw (fst d) = ?k \<longrightarrow> fst d \<le> fst dm) \<and>
       map_of ?od ?k = Some (child_of n (snd dm) (Some (fst dm)))"
    by auto
  with w one fewer show ?thesis by blast
qed

theorem wrapped_definitions_collision_witness:
  "wrapped_definitions ascii_lower foo_root
     = Inr [(''foo'', child_of foo_root [(''type'', JStr ''number'')] (Some ''foo''))] \<and>
   ascii_lower ''Foo'' = ascii_lower ''foo'' \<and> ''Foo'' < ''foo'' \<and>
   (\<exists>od. wrapped_definitions ascii_lower foo_root = Inr od \<and> length od < 2)"
proof -
  let ?mdefs = "[(''foo'', [(''type'', JStr ''number'')]), (''Foo'', [(''type'', JStr ''string'')])]"
  have h1: "obj_definitions (schemaobj foo_root) = JObj (map as_schema ?mdefs)"
    by (simp add: obj_definitions_def as_schema_def foo_root_def JSONSchemaTraitlets_def)
  have h2: "distinct (map fst ?mdefs)" by simp
  have h3: "(''Foo'', [(''type'', JStr ''string'')]) \<in> set ?mdefs" by simp
  have h4: "(''foo'', [(''type'', JStr ''number'')]) \<in> set ?mdefs" by simp
  have h5: "fst (''Foo'', [(''type'', JStr ''string'')]) \<noteq> fst (''foo'', [(''type'', JStr ''number'')])"
    by simp
  have h6: "ascii_lower (fst (''Foo'', [(''type'', JStr ''string'')]))
      = ascii_lower (fst (''foo'', [(''type'', JStr ''number'')]))"
    by (simp add: ascii_lower_def lower_char_def char_of_nat_bits)
  have v: "wrapped_definitions ascii_lower foo_root
     = Inr [(''foo'', child_of foo_root [(''type'', JStr ''number'')] (Some ''foo''))]"
    by (simp add: foo_root_def defs_eval)
  from wrapped_definitions_collision [OF h1 h2 h3 h4 h5 h6]
  have "\<exists>od. wrapped_definitions ascii_lower foo_root = Inr od \<and> length od < 2" by auto
  with v h6 show ?thesis by simp
qed

end
